theory Spec2Isabelle
  imports Main "HOL-Library.AList" "HOL-Library.FSet" "HOL-Library.Multiset"
    "HOL-Library.Code_Target_Numeral"
begin

section \<open>Python values used by the server\<close>

text \<open>
  Python dictionaries keep their keys in insertion order: assigning to an existing key
  keeps the key's position, assigning to a new key appends it. An association list with
  \<open>AList.update\<close> behaves that way, \<open>map_of\<close> is the lookup and
  \<open>AList.delete\<close> is \<^verbatim>\<open>del d[k]\<close>.
\<close>

type_synonym ('k, 'v) dict = "('k \<times> 'v) list"

definition dict_get :: "('k, 'v) dict \<Rightarrow> 'k \<Rightarrow> 'v option" where
  "dict_get d k = map_of d k"

definition dict_set :: "'k \<Rightarrow> 'v \<Rightarrow> ('k, 'v) dict \<Rightarrow> ('k, 'v) dict" where
  "dict_set k v d = AList.update k v d"

definition dict_del :: "'k \<Rightarrow> ('k, 'v) dict \<Rightarrow> ('k, 'v) dict" where
  "dict_del k d = AList.delete k d"

definition dict_contains :: "('k, 'v) dict \<Rightarrow> 'k \<Rightarrow> bool" where
  "dict_contains d k = (k \<in> set (map fst d))"

text \<open>\<^verbatim>\<open>collections.deque(maxlen=n).append(x)\<close>: the new element goes to the right
  end and, when the deque is over its bound, elements are discarded from the left.\<close>

definition deque_append :: "nat \<Rightarrow> 'a \<Rightarrow> 'a list \<Rightarrow> 'a list" where
  "deque_append maxlen x q = (let q' = q @ [x] in drop (length q' - maxlen) q')"

text \<open>Decimal rendering of a non-negative integer, as \<^verbatim>\<open>str(n)\<close> and f-strings do.\<close>

definition digit_char :: "nat \<Rightarrow> char" where
  "digit_char d = ''0123456789'' ! d"

fun str_nat :: "nat \<Rightarrow> string" where
  "str_nat n = (if n < 10 then [digit_char n] else str_nat (n div 10) @ [digit_char (n mod 10)])"

declare str_nat.simps [simp del]

text \<open>ASCII part of \<^verbatim>\<open>str.lower()\<close>, the substring test \<^verbatim>\<open>sub in s\<close> and
  \<^verbatim>\<open>s.startswith(p)\<close>.\<close>

definition lower_char :: "char \<Rightarrow> char" where
  "lower_char c =
     (case map_of (zip ''ABCDEFGHIJKLMNOPQRSTUVWXYZ'' ''abcdefghijklmnopqrstuvwxyz'') c of
        None \<Rightarrow> c
      | Some l \<Rightarrow> l)"

definition lower :: "string \<Rightarrow> string" where
  "lower s = map lower_char s"

fun startswith :: "string \<Rightarrow> string \<Rightarrow> bool" where
  "startswith s [] = True"
| "startswith [] (p # ps) = False"
| "startswith (c # cs) (p # ps) = (c = p \<and> startswith cs ps)"

fun str_in :: "string \<Rightarrow> string \<Rightarrow> bool" where
  "str_in sub [] = (sub = [])"
| "str_in sub (c # cs) = (startswith (c # cs) sub \<or> str_in sub cs)"

text \<open>
  Python floats and numpy's \<^verbatim>\<open>float64\<close> are IEEE binary64 numbers. Every finite double
  is a rational, so doubles are carried as \<open>rat\<close>, and \<open>round_double\<close> is the rounding
  that each floating-point operation of the source applies to its exact result: to the
  nearest number with 53 significant bits (exponent at least \<open>-1022\<close>), ties to the even
  significand. Results beyond the largest finite double do not occur in the modelled
  code and are not treated. \<open>binary_exponent x\<close> is the \<open>e\<close> with
  \<open>2 ^ e \<le> x < 2 ^ (e + 1)\<close> for positive \<open>x\<close>. \<open>int_of_float\<close> is \<^verbatim>\<open>int(x)\<close>,
  truncation towards zero.
\<close>

fun floor_log2 :: "nat \<Rightarrow> nat" where
  "floor_log2 n = (if n < 2 then 0 else Suc (floor_log2 (n div 2)))"

declare floor_log2.simps [simp del]

definition binary_exponent :: "rat \<Rightarrow> int" where
  "binary_exponent x =
     (if 1 \<le> x then int (floor_log2 (nat \<lfloor>x\<rfloor>))
      else - int (Suc (floor_log2 (nat (\<lceil>1 / x\<rceil> - 1)))))"

definition pow2 :: "int \<Rightarrow> rat" where
  "pow2 e = (if 0 \<le> e then 2 ^ nat e else 1 / 2 ^ nat (- e))"

definition round_half_even :: "rat \<Rightarrow> int" where
  "round_half_even x =
     (let f = \<lfloor>x\<rfloor>; r = x - of_int f
      in if r < 1 / 2 then f else if 1 / 2 < r then f + 1 else if even f then f else f + 1)"

definition round_double :: "rat \<Rightarrow> rat" where
  "round_double x =
     (if x = 0 then 0
      else
        let a = \<bar>x\<bar>;
            ulp = pow2 (max (binary_exponent a) (- 1022) - 52)
        in sgn x * of_int (round_half_even (a / ulp)) * ulp)"

definition int_of_float :: "rat \<Rightarrow> int" where
  "int_of_float x = (if 0 \<le> x then \<lfloor>x\<rfloor> else - \<lfloor>- x\<rfloor>)"

section \<open>Events\<close>

text \<open>The dictionary built by \<^verbatim>\<open>EBPFLoader.handle_connection_event\<close> from the kernel
  record: unsigned integers and two decoded strings.\<close>

record raw_event =
  timestamp :: nat
  pid :: nat
  comm :: string
  cmdline :: string
  saddr :: nat
  daddr :: nat
  sport :: nat
  dport :: nat
  protocol :: nat

text \<open>The keys that \<^verbatim>\<open>enrich_connection_event\<close> adds. When enrichment fails with an
  unexpected exception the source returns the raw event, with none of these keys.\<close>

record enrichment =
  src_ip :: string
  dst_ip :: string
  protocol_str :: string
  process_name :: string
  cmdline_full :: string
  exe_path :: string
  parent_pid :: nat
  username :: string
  create_time :: rat
  status :: string
  country_code :: string
  is_private :: bool
  is_safe_port :: bool

text \<open>The event dictionary after enrichment; \<open>threat_score\<close> and \<open>is_suspicious\<close>
  are absent until the analysis result is attached.\<close>

record enriched_event =
  raw :: raw_event
  enriched :: "enrichment option"
  threat_score :: "int option"
  is_suspicious :: "bool option"

text \<open>What the host process table answers for a pid: the three outcome classes that
  the source distinguishes, and any other failure.\<close>

datatype proc_lookup =
    ProcFound string string string nat string rat string
  | NoSuchProcess
  | AccessDenied
  | LookupFailed

section \<open>ConnectionHandler: enrichment\<close>

text \<open>\<^verbatim>\<open>format_ip\<close>: \<^verbatim>\<open>struct.pack('!I', n)\<close> raises outside 32 bits and the
  handler then answers \<^verbatim>\<open>Invalid-IP-n\<close>.\<close>

definition format_ip :: "nat \<Rightarrow> string" where
  "format_ip ip_int =
     (if ip_int < 2 ^ 32
      then str_nat (ip_int div 2 ^ 24) @ ''.'' @ str_nat (ip_int div 2 ^ 16 mod 256) @ ''.''
           @ str_nat (ip_int div 2 ^ 8 mod 256) @ ''.'' @ str_nat (ip_int mod 256)
      else ''Invalid-IP-'' @ str_nat ip_int)"

text \<open>\<^verbatim>\<open>is_private_ip\<close>: the four ranges as integers (10/8, 172.16/12, 192.168/16,
  127/8).\<close>

definition private_ranges :: "(nat \<times> nat) list" where
  "private_ranges =
     [(167772160, 184549375), (2886729728, 2887778303),
      (3232235520, 3232301055), (2130706432, 2147483647)]"

definition is_private_ip :: "nat \<Rightarrow> bool" where
  "is_private_ip ip_int = list_ex (\<lambda>(start_int, end_int). start_int \<le> ip_int \<and> ip_int \<le> end_int) private_ranges"

text \<open>\<^verbatim>\<open>ConnectionHandler.safe_ports\<close> as the set literal of the source has it (995
  is written twice there).\<close>

definition handler_safe_ports :: "nat list" where
  "handler_safe_ports = [80, 443, 22, 53, 25, 587, 993, 995, 21, 110, 143, 995, 8080, 8443]"

text \<open>The set the specification calls SafePorts.\<close>

definition SafePorts :: "nat set" where
  "SafePorts = {80, 443, 22, 53, 25, 587, 993, 995, 21, 110, 143, 8080, 8443, 9418}"

definition enrich_connection_event :: "proc_lookup \<Rightarrow> raw_event \<Rightarrow> enriched_event" where
  "enrich_connection_event proc event =
     (let src = format_ip (saddr event);
          dst = format_ip (daddr event);
          pstr = (if protocol event = 6 then ''TCP'' else ''Protocol-'' @ str_nat (protocol event));
          priv = is_private_ip (daddr event);
          safe = (dport event \<in> set handler_safe_ports);
          mk = (\<lambda>name cmd exe ppid user ctime st.
                 \<lparr>raw = event,
                  enriched = Some \<lparr>src_ip = src, dst_ip = dst, protocol_str = pstr,
                    process_name = name, cmdline_full = cmd, exe_path = exe, parent_pid = ppid,
                    username = user, create_time = ctime, status = st,
                    country_code = ''Unknown'', is_private = priv, is_safe_port = safe\<rparr>,
                  threat_score = None, is_suspicious = None\<rparr>)
      in case proc of
           ProcFound name cmd exe ppid user ctime st \<Rightarrow> mk name cmd exe ppid user ctime st
         | NoSuchProcess \<Rightarrow>
             mk (''[terminated_pid:'' @ str_nat (pid event) @ '']'') (cmdline event) ''Unknown'' 0
                ''Unknown'' 0 ''terminated''
         | AccessDenied \<Rightarrow>
             mk (comm event) (cmdline event) ''Unknown'' 0 ''Restricted'' 0 ''restricted''
         | LookupFailed \<Rightarrow>
             \<lparr>raw = event, enriched = None, threat_score = None, is_suspicious = None\<rparr>)"

text \<open>Reading keys the way the analyzer does, \<^verbatim>\<open>event.get(key, default)\<close>.\<close>

definition get_dst_ip :: "enriched_event \<Rightarrow> string" where
  "get_dst_ip e = (case enriched e of None \<Rightarrow> '''' | Some x \<Rightarrow> dst_ip x)"

definition get_process_name :: "enriched_event \<Rightarrow> string" where
  "get_process_name e = (case enriched e of None \<Rightarrow> '''' | Some x \<Rightarrow> process_name x)"

definition get_cmdline_full :: "enriched_event \<Rightarrow> string" where
  "get_cmdline_full e = (case enriched e of None \<Rightarrow> '''' | Some x \<Rightarrow> cmdline_full x)"

definition get_exe_path :: "enriched_event \<Rightarrow> string" where
  "get_exe_path e = (case enriched e of None \<Rightarrow> '''' | Some x \<Rightarrow> exe_path x)"

definition get_is_private :: "enriched_event \<Rightarrow> bool" where
  "get_is_private e = (case enriched e of None \<Rightarrow> False | Some x \<Rightarrow> is_private x)"

definition get_is_safe_port :: "enriched_event \<Rightarrow> bool" where
  "get_is_safe_port e = (case enriched e of None \<Rightarrow> True | Some x \<Rightarrow> is_safe_port x)"

definition get_is_suspicious :: "enriched_event \<Rightarrow> bool" where
  "get_is_suspicious e = (case is_suspicious e of None \<Rightarrow> False | Some b \<Rightarrow> b)"

section \<open>ThreatDetector\<close>

text \<open>
  What one analysis reads from outside the program: the wall clock (\<^verbatim>\<open>time.time()\<close>,
  one reading for the whole analysis), the local hour and weekday of
  \<^verbatim>\<open>datetime.now()\<close>, and \<open>anomaly_score\<close>, the number that
  \<^verbatim>\<open>np.mean(z_scores)\<close> yields in \<^verbatim>\<open>_ml_anomaly_detection\<close>. That mean of
  z-scores is a floating-point computation with a square root; its value is an input
  here. Clock readings and that mean are doubles; every operation on them below is
  rounded with \<open>round_double\<close> as the source rounds it, and comparisons are exact.
\<close>

record env =
  now :: rat
  hour :: nat
  weekday :: nat
  anomaly_score :: rat

record hist_entry =
  h_timestamp :: rat
  h_dst_ip :: string
  h_dst_port :: nat

record detector =
  td_ip_frequency :: "(string, nat) dict"
  process_connection_history :: "(nat, hist_entry list) dict"
  process_first_connection :: "nat fset"
  total_analyzed :: nat
  suspicious_detected :: nat
  connection_features :: "rat list list"

definition detector_safe_ports :: "nat list" where
  "detector_safe_ports = [80, 443, 22, 53, 25, 587, 993, 995, 21, 110, 143, 8080, 8443, 9418]"

definition common_dns_servers :: "string list" where
  "common_dns_servers =
     [''8.8.8.8'', ''8.8.4.4'', ''1.1.1.1'', ''1.0.0.1'', ''208.67.222.222'', ''9.9.9.9'',
      ''149.112.112.112'']"

definition suspicious_ports :: "nat list" where
  "suspicious_ports = [1337, 31337, 4444, 5555, 6667, 12345, 54321]"

definition new_detector :: detector where
  "new_detector =
     \<lparr>td_ip_frequency = [], process_connection_history = [], process_first_connection = {||},
      total_analyzed = 0, suspicious_detected = 0, connection_features = []\<rparr>"

text \<open>Reading a \<^verbatim>\<open>defaultdict\<close>: a missing key reads as the default.\<close>

definition count_of :: "('k, nat) dict \<Rightarrow> 'k \<Rightarrow> nat" where
  "count_of d k = (case dict_get d k of None \<Rightarrow> 0 | Some n \<Rightarrow> n)"

definition history_of :: "detector \<Rightarrow> nat \<Rightarrow> hist_entry list" where
  "history_of det p = (case dict_get (process_connection_history det) p of None \<Rightarrow> [] | Some h \<Rightarrow> h)"

text \<open>Rule 1, \<^verbatim>\<open>_check_destination_rarity\<close>. The quotient of the two integers is a
  double, and so are the literals \<^verbatim>\<open>0.001\<close>, \<^verbatim>\<open>0.005\<close> and \<^verbatim>\<open>0.01\<close>.\<close>

definition check_destination_rarity :: "detector \<Rightarrow> enriched_event \<Rightarrow> nat" where
  "check_destination_rarity det event =
     (let dst = get_dst_ip event in
      if dst = [] then 0
      else if dst \<in> set common_dns_servers then 0
      else
        let total_connections = total_analyzed det;
            ip_count = count_of (td_ip_frequency det) dst
        in if total_connections < 10 then 0
           else
             let ip_freq = round_double (of_nat ip_count / of_nat total_connections)
             in if ip_freq < round_double (1 / 1000) then 20
                else if ip_freq < round_double (5 / 1000) then 10
                else if ip_freq < round_double (1 / 100) then 5
                else 0)"

text \<open>Rule 2, \<^verbatim>\<open>_check_connection_frequency\<close>. \<open>recent_within\<close> is the list
  comprehension that keeps the history entries of the last \<open>secs\<close> seconds,
  \<open>dst_counts\<close> the counting loop over them, \<open>max_list\<close> Python's \<^verbatim>\<open>max\<close>
  of a non-empty collection (the source only calls it on one).\<close>

definition recent_within :: "rat \<Rightarrow> rat \<Rightarrow> hist_entry list \<Rightarrow> hist_entry list" where
  "recent_within secs current_time h =
     filter (\<lambda>conn. round_double (current_time - h_timestamp conn) \<le> secs) h"

definition dst_counts :: "hist_entry list \<Rightarrow> (string, nat) dict" where
  "dst_counts recent = fold (\<lambda>conn d. dict_set (h_dst_ip conn) (count_of d (h_dst_ip conn) + 1) d) recent []"

fun max_list :: "nat list \<Rightarrow> nat" where
  "max_list [] = 0"
| "max_list (x # xs) = fold max xs x"

definition rate_score :: "nat \<Rightarrow> nat" where
  "rate_score connection_rate =
     (if connection_rate > 100 then 25
      else if connection_rate > 50 then 15
      else if connection_rate > 20 then 10
      else if connection_rate > 10 then 5
      else 0)"

definition frequency_score :: "hist_entry list \<Rightarrow> nat" where
  "frequency_score recent_connections =
     rate_score (length recent_connections)
     + (if length recent_connections \<ge> 3
        then (if max_list (map snd (dst_counts recent_connections)) > 20 then 15 else 0)
        else 0)"

definition check_connection_frequency :: "rat \<Rightarrow> detector \<Rightarrow> enriched_event \<Rightarrow> nat" where
  "check_connection_frequency current_time det event =
     frequency_score (recent_within 60 current_time (history_of det (pid (raw event))))"

text \<open>Rule 3, \<^verbatim>\<open>_check_suspicious_ports\<close>.\<close>

definition check_suspicious_ports :: "enriched_event \<Rightarrow> nat" where
  "check_suspicious_ports event =
     (let dst_port = dport (raw event) in
      (if dst_port \<in> set suspicious_ports then 30 else 0)
      + (if dst_port > 49152 \<and> dst_port \<notin> set detector_safe_ports then 10 else 0)
      + (if dst_port \<notin> set detector_safe_ports \<and> dst_port < 1024 then 15 else 0))"

text \<open>Rule 4, \<^verbatim>\<open>_check_unusual_timing\<close>.\<close>

definition check_unusual_timing :: "env \<Rightarrow> enriched_event \<Rightarrow> nat" where
  "check_unusual_timing ev event =
     (if 2 \<le> hour ev \<and> hour ev \<le> 6 then 10 else 0)
     + (if weekday ev \<ge> 5 \<and> dport (raw event) \<notin> set detector_safe_ports then 5 else 0)"

text \<open>Rule 5, \<^verbatim>\<open>_check_first_time_process\<close>; it records the pid.\<close>

definition system_processes :: "string list" where
  "system_processes = [''systemd'', ''kernel'', ''init'', ''kthreadd'']"

definition check_first_time_process :: "detector \<Rightarrow> enriched_event \<Rightarrow> nat \<times> detector" where
  "check_first_time_process det event =
     (let p = pid (raw event) in
      if p |\<notin>| process_first_connection det
      then (if lower (get_process_name event) \<in> set system_processes then 30 else 15,
            det\<lparr>process_first_connection := finsert p (process_first_connection det)\<rparr>)
      else (0, det))"

text \<open>Rule 6, \<^verbatim>\<open>_check_geographic_anomalies\<close>.\<close>

definition check_geographic_anomalies :: "enriched_event \<Rightarrow> nat" where
  "check_geographic_anomalies event = (if get_is_private event then 0 else 5)"

text \<open>Rule 7, \<^verbatim>\<open>_check_process_anomalies\<close>.\<close>

definition suspicious_names :: "string list" where
  "suspicious_names = [''nc'', ''ncat'', ''netcat'', ''python'', ''perl'', ''bash'', ''sh'']"

definition suspicious_args :: "string list" where
  "suspicious_args = [''-e'', ''--execute'', ''/bin/sh'', ''/bin/bash'', ''reverse'', ''shell'']"

definition check_process_anomalies :: "enriched_event \<Rightarrow> nat" where
  "check_process_anomalies event =
     (let pname = lower (get_process_name event);
          cmd = lower (get_cmdline_full event);
          exe = lower (get_exe_path event)
      in (if list_ex (\<lambda>sus_name. str_in sus_name pname) suspicious_names then 20 else 0)
         + (if list_ex (\<lambda>sus_arg. str_in sus_arg cmd) suspicious_args then 25 else 0)
         + (if str_in ''/tmp/'' exe \<or> str_in ''/var/tmp/'' exe then 30 else 0)
         + (if exe \<noteq> [] \<and> startswith exe ''/.'' then 20 else 0))"

text \<open>Rule 8, \<^verbatim>\<open>_check_connection_patterns\<close>. \<open>sequential_count\<close> is the loop over
  the sorted ports: it ends with the length of the run of consecutive ports that the
  sorted list ends with.\<close>

definition sequential_count :: "nat list \<Rightarrow> nat" where
  "sequential_count ports =
     fst (fold (\<lambda>p (cnt, prev). (if p = prev + 1 then cnt + 1 else 1, p)) (tl ports) (1, hd ports))"

definition check_connection_patterns :: "rat \<Rightarrow> detector \<Rightarrow> enriched_event \<Rightarrow> nat" where
  "check_connection_patterns current_time det event =
     (let p = pid (raw event);
          unique_destinations = length (remdups (map h_dst_ip (history_of det p)));
          recent_connections = recent_within 30 current_time (history_of det p)
      in (if dict_contains (process_connection_history det) p
          then (if unique_destinations > 50 then 15
                else if unique_destinations > 20 then 10
                else if unique_destinations > 10 then 5
                else 0)
          else 0)
         + (if length recent_connections \<ge> 5
            then (if sequential_count (sort (map h_dst_port recent_connections)) \<ge> 5 then 20 else 0)
            else 0))"

text \<open>\<^verbatim>\<open>_extract_features\<close> and \<^verbatim>\<open>_ml_anomaly_detection\<close>.\<close>

definition extract_features :: "env \<Rightarrow> enriched_event \<Rightarrow> rat list" where
  "extract_features ev event =
     [round_double (of_nat (dport (raw event)) / 65535),
      round_double (of_nat (sport (raw event)) / 65535),
      of_bool (get_is_private event),
      of_bool (get_is_safe_port event),
      round_double (of_nat (length (get_process_name event)) / 50),
      round_double (of_nat (length (get_cmdline_full event)) / 200),
      round_double (of_nat (hour ev) / 24),
      round_double (of_nat (weekday ev) / 7)]"

definition ml_anomaly_detection :: "env \<Rightarrow> detector \<Rightarrow> enriched_event \<Rightarrow> rat \<times> detector" where
  "ml_anomaly_detection ev det event =
     (let features = extract_features ev event in
      if length (connection_features det) < 100
      then (0, det\<lparr>connection_features := connection_features det @ [features]\<rparr>)
      else
        let normalized_score = min 1 (round_double (anomaly_score ev / 3)) in
        if normalized_score < round_double (7 / 10)
        then
          let fs = connection_features det @ [features];
              fs' = (if length fs > 10000 then drop (length fs - 5000) fs else fs)
          in (normalized_score, det\<lparr>connection_features := fs'\<rparr>)
        else (normalized_score, det))"

text \<open>\<^verbatim>\<open>analyze_connection\<close>. \<open>track\<close> is its first part, the update of the tracking
  data; \<open>rule_contributions\<close> are the eight rule results in the order the source adds
  them, with the detector that the fifth rule leaves behind. The rule sum is an integer,
  \<^verbatim>\<open>ml_score * 50\<close> a double product; \<^verbatim>\<open>max\<close> and \<^verbatim>\<open>min\<close> compare the two exactly
  and \<^verbatim>\<open>int\<close> truncates the result.\<close>

definition track :: "env \<Rightarrow> detector \<Rightarrow> enriched_event \<Rightarrow> detector" where
  "track ev det event =
     (let d_ip = get_dst_ip event;
          p = pid (raw event);
          det1 = det\<lparr>total_analyzed := total_analyzed det + 1\<rparr>;
          det2 = det1\<lparr>td_ip_frequency :=
                   dict_set d_ip (count_of (td_ip_frequency det1) d_ip + 1) (td_ip_frequency det1)\<rparr>
      in det2\<lparr>process_connection_history :=
                dict_set p
                  (deque_append 100
                     \<lparr>h_timestamp = now ev, h_dst_ip = d_ip, h_dst_port = dport (raw event)\<rparr>
                     (history_of det2 p))
                  (process_connection_history det2)\<rparr>)"

definition rule_contributions :: "env \<Rightarrow> detector \<Rightarrow> enriched_event \<Rightarrow> nat list \<times> detector" where
  "rule_contributions ev det event =
     (let r1 = check_destination_rarity det event;
          r2 = check_connection_frequency (now ev) det event;
          r3 = check_suspicious_ports event;
          r4 = check_unusual_timing ev event;
          (r5, det') = check_first_time_process det event;
          r6 = check_geographic_anomalies event;
          r7 = check_process_anomalies event;
          r8 = check_connection_patterns (now ev) det' event
      in ([r1, r2, r3, r4, r5, r6, r7, r8], det'))"

definition analyze_connection :: "env \<Rightarrow> detector \<Rightarrow> enriched_event \<Rightarrow> int \<times> detector" where
  "analyze_connection ev det event =
     (let det1 = track ev det event;
          (rules, det2) = rule_contributions ev det1 event;
          (ml_score, det3) = ml_anomaly_detection ev det2 event;
          score = max (of_nat (sum_list rules)) (round_double (ml_score * 50));
          capped = min 100 (max 0 score);
          det4 = (if capped \<ge> 50 then det3\<lparr>suspicious_detected := suspicious_detected det3 + 1\<rparr>
                  else det3)
      in (int_of_float capped, det4))"

section \<open>WebSocketHandler\<close>

text \<open>
  A client's socket either accepts a frame or raises on \<^verbatim>\<open>send_text\<close>. The frames
  that were handed to a socket successfully are collected in \<open>outbox\<close>, each with the
  clock reading of its admission check and the client it went to; \<open>kill_requests\<close>
  collects the pid values with which the termination code of \<^verbatim>\<open>handle_kill_process\<close>
  was entered. Both are observations of the handler's effects, not fields of the source.
  A send has one clock reading, that of its admission check; the source reads the clock
  again for \<^verbatim>\<open>last_message_time\<close> after the frame has gone out.
\<close>

datatype socket = Open | Broken

datatype json = JNull | JBool bool | JInt int | JStr string | JArr "json list" | JObj "(string \<times> json) list"

datatype message =
    ConnectionMsg enriched_event
  | ErrorMsg string
  | ProcessKilledMsg int

record metadata =
  connected_at :: rat
  last_ping :: rat
  subscriptions :: "string list"
  last_message_time :: rat

record ws_handler =
  clients :: "(string, socket) dict"
  client_metadata :: "(string, metadata) dict"
  rate_limit :: nat
  client_message_counts :: "(string, rat list) dict"
  messages_sent :: nat
  outbox :: "(rat \<times> string \<times> message) list"
  kill_requests :: "json list"

definition new_ws_handler :: ws_handler where
  "new_ws_handler =
     \<lparr>clients = [], client_metadata = [], rate_limit = 100, client_message_counts = [],
      messages_sent = 0, outbox = [], kill_requests = []\<rparr>"

text \<open>The part of \<^verbatim>\<open>handle_client\<close> that registers an accepted client.\<close>

definition register_client :: "rat \<Rightarrow> string \<Rightarrow> socket \<Rightarrow> ws_handler \<Rightarrow> ws_handler" where
  "register_client current_time client_id websocket ws =
     ws\<lparr>clients := dict_set client_id websocket (clients ws),
        client_metadata :=
          dict_set client_id
            \<lparr>connected_at = current_time, last_ping = current_time, subscriptions = [''all''],
             last_message_time = current_time\<rparr>
            (client_metadata ws),
        client_message_counts := dict_set client_id [] (client_message_counts ws)\<rparr>"

definition window_of :: "ws_handler \<Rightarrow> string \<Rightarrow> rat list" where
  "window_of ws client_id = (case dict_get (client_message_counts ws) client_id of None \<Rightarrow> [] | Some w \<Rightarrow> w)"

definition check_rate_limit :: "rat \<Rightarrow> string \<Rightarrow> ws_handler \<Rightarrow> bool \<times> ws_handler" where
  "check_rate_limit current_time client_id ws =
     (let kept = filter (\<lambda>ts. round_double (current_time - ts) < 1) (window_of ws client_id) in
      if length kept < rate_limit ws
      then (True, ws\<lparr>client_message_counts :=
                        dict_set client_id (kept @ [current_time]) (client_message_counts ws)\<rparr>)
      else (False, ws\<lparr>client_message_counts := dict_set client_id kept (client_message_counts ws)\<rparr>))"

definition cleanup_client :: "string \<Rightarrow> ws_handler \<Rightarrow> ws_handler" where
  "cleanup_client client_id ws =
     ws\<lparr>clients := dict_del client_id (clients ws),
        client_metadata := dict_del client_id (client_metadata ws),
        client_message_counts := dict_del client_id (client_message_counts ws)\<rparr>"

definition send_message :: "rat \<Rightarrow> string \<Rightarrow> socket \<Rightarrow> message \<Rightarrow> ws_handler \<Rightarrow> ws_handler" where
  "send_message current_time client_id websocket msg ws =
     (case check_rate_limit current_time client_id ws of
        (False, ws1) \<Rightarrow> ws1
      | (True, ws1) \<Rightarrow>
          (case websocket of
             Broken \<Rightarrow> cleanup_client client_id ws1
           | Open \<Rightarrow>
               ws1\<lparr>outbox := outbox ws1 @ [(current_time, client_id, msg)],
                   messages_sent := messages_sent ws1 + 1,
                   client_metadata :=
                     (case dict_get (client_metadata ws1) client_id of
                        None \<Rightarrow> client_metadata ws1
                      | Some md \<Rightarrow>
                          dict_set client_id (md\<lparr>last_message_time := current_time\<rparr>)
                            (client_metadata ws1))\<rparr>))"

definition send_error :: "rat \<Rightarrow> string \<Rightarrow> socket \<Rightarrow> string \<Rightarrow> ws_handler \<Rightarrow> ws_handler" where
  "send_error current_time client_id websocket error_message ws =
     send_message current_time client_id websocket (ErrorMsg error_message) ws"

definition broadcast_connection :: "rat \<Rightarrow> enriched_event \<Rightarrow> ws_handler \<Rightarrow> ws_handler" where
  "broadcast_connection current_time connection_event ws =
     fold (\<lambda>(client_id, websocket) w.
             send_message current_time client_id websocket (ConnectionMsg connection_event) w)
       (clients ws) ws"

text \<open>
  \<^verbatim>\<open>handle_kill_process\<close>. \<open>truthy\<close> is Python's truth value of a decoded JSON value
  (floats are left out of \<open>json\<close>). What the termination code does after the guard
  depends on the host: \<open>kill_outcome\<close> says whether it ran through or which class of
  exception it raised, with the pid as the reply then shows it. When the \<^verbatim>\<open>data\<close>
  member is not an object, \<^verbatim>\<open>.get\<close> raises before the guard.
\<close>

datatype py_error = AttributeError

datatype kill_outcome =
    Terminated int
  | RaisedNoSuchProcess int
  | RaisedAccessDenied int
  | RaisedOther string

fun truthy :: "json \<Rightarrow> bool" where
  "truthy JNull = False"
| "truthy (JBool b) = b"
| "truthy (JInt i) = (i \<noteq> 0)"
| "truthy (JStr s) = (s \<noteq> [])"
| "truthy (JArr xs) = (xs \<noteq> [])"
| "truthy (JObj kvs) = (kvs \<noteq> [])"

fun str_int :: "int \<Rightarrow> string" where
  "str_int i = (if i < 0 then ''-'' @ str_nat (nat (- i)) else str_nat (nat i))"

definition handle_kill_process ::
  "rat \<Rightarrow> kill_outcome \<Rightarrow> string \<Rightarrow> socket \<Rightarrow> (string \<times> json) list \<Rightarrow> ws_handler
     \<Rightarrow> py_error + ws_handler" where
  "handle_kill_process current_time outcome client_id websocket data ws =
     (case (case map_of data ''data'' of None \<Rightarrow> JObj [] | Some v \<Rightarrow> v) of
        JObj inner \<Rightarrow>
          (let p = (case map_of inner ''pid'' of None \<Rightarrow> JNull | Some v \<Rightarrow> v) in
           if \<not> truthy p
           then Inr (send_error current_time client_id websocket
                       ''PID not provided for kill_process'' ws)
           else
             let ws1 = ws\<lparr>kill_requests := kill_requests ws @ [p]\<rparr> in
             Inr (case outcome of
                    Terminated n \<Rightarrow>
                      send_message current_time client_id websocket (ProcessKilledMsg n) ws1
                  | RaisedNoSuchProcess n \<Rightarrow>
                      send_error current_time client_id websocket
                        (''Process with PID '' @ str_int n @ '' not found.'') ws1
                  | RaisedAccessDenied n \<Rightarrow>
                      send_error current_time client_id websocket
                        (''Access denied. Insufficient permissions to kill process '' @ str_int n
                         @ ''.'') ws1
                  | RaisedOther shown \<Rightarrow>
                      send_error current_time client_id websocket
                        (''An unexpected error occurred while trying to kill process '' @ shown
                         @ ''.'') ws1))
      | _ \<Rightarrow> Inl AttributeError)"

text \<open>A run of outbound sends, each with its clock reading, client, socket and frame, and
  the clock readings of the frames that reached one client.\<close>

definition send_all :: "(rat \<times> string \<times> socket \<times> message) list \<Rightarrow> ws_handler \<Rightarrow> ws_handler" where
  "send_all reqs ws = fold (\<lambda>(t, client_id, websocket, msg) w. send_message t client_id websocket msg w) reqs ws"

definition delivered_times :: "string \<Rightarrow> ws_handler \<Rightarrow> rat list" where
  "delivered_times client_id ws = map fst (filter (\<lambda>(t, c, m). c = client_id) (outbox ws))"

section \<open>ConnectionHandler: ingest and queries\<close>

record proc_stats =
  ps_name :: string
  connection_count :: nat
  first_seen :: rat
  last_seen :: rat
  unique_destinations :: "nat fset"
  suspicious_count :: nat

record handler =
  max_connections :: nat
  retention_minutes :: int
  threat_detector :: "detector option"
  websocket_handler :: "ws_handler option"
  connections :: "(string, enriched_event) dict"
  connection_queue :: "string list"
  process_stats :: "(nat, proc_stats) dict"
  ip_frequency :: "(nat, nat) dict"
  connection_rates :: "(nat, rat list) dict"
  total_connections :: nat
  start_time :: rat

definition new_handler :: "nat \<Rightarrow> int \<Rightarrow> detector option \<Rightarrow> rat \<Rightarrow> handler" where
  "new_handler maxc retention det t0 =
     \<lparr>max_connections = maxc, retention_minutes = retention, threat_detector = det,
      websocket_handler = None, connections = [], connection_queue = [], process_stats = [],
      ip_frequency = [], connection_rates = [], total_connections = 0, start_time = t0\<rparr>"

definition conn_id_of :: "raw_event \<Rightarrow> string" where
  "conn_id_of event =
     str_nat (timestamp event) @ ''_'' @ str_nat (pid event) @ ''_'' @ str_nat (saddr event) @ ''_''
     @ str_nat (sport event) @ ''_'' @ str_nat (daddr event) @ ''_'' @ str_nat (dport event)"

text \<open>\<^verbatim>\<open>cleanup_old_connections\<close>; \<open>is_old\<close> is its test on one stored event.\<close>

definition is_old :: "rat \<Rightarrow> enriched_event \<Rightarrow> bool" where
  "is_old cutoff_time event =
     (round_double (of_nat (timestamp (raw event)) / 1000000000) < cutoff_time)"

definition cleanup_old_connections :: "rat \<Rightarrow> handler \<Rightarrow> handler" where
  "cleanup_old_connections current_time h =
     (let cutoff_time = round_double (current_time - of_int (retention_minutes h * 60)) in
      h\<lparr>connections := filter (\<lambda>(conn_id, event). \<not> is_old cutoff_time event) (connections h)\<rparr>)"

text \<open>\<^verbatim>\<open>update_statistics\<close>. \<open>new_stats\<close> is the entry it creates for a pid it
  has not seen, \<open>record_connection\<close> the four updates of the entry.\<close>

definition new_stats :: "rat \<Rightarrow> enriched_event \<Rightarrow> proc_stats" where
  "new_stats current_time event =
     \<lparr>ps_name = comm (raw event), connection_count = 0, first_seen = current_time,
      last_seen = current_time, unique_destinations = {||}, suspicious_count = 0\<rparr>"

definition record_connection :: "rat \<Rightarrow> enriched_event \<Rightarrow> proc_stats \<Rightarrow> proc_stats" where
  "record_connection current_time event stats =
     stats\<lparr>connection_count := connection_count stats + 1,
           last_seen := current_time,
           unique_destinations := finsert (daddr (raw event)) (unique_destinations stats),
           suspicious_count :=
             (if get_is_suspicious event then suspicious_count stats + 1
              else suspicious_count stats)\<rparr>"

definition update_statistics :: "rat \<Rightarrow> enriched_event \<Rightarrow> handler \<Rightarrow> handler" where
  "update_statistics current_time event h =
     (let p = pid (raw event);
          d = daddr (raw event);
          stats = (case dict_get (process_stats h) p of
                     None \<Rightarrow> new_stats current_time event
                   | Some st \<Rightarrow> st);
          rates = (case dict_get (connection_rates h) p of None \<Rightarrow> [] | Some r \<Rightarrow> r) @ [current_time];
          h1 = h\<lparr>process_stats := dict_set p (record_connection current_time event stats) (process_stats h),
                 ip_frequency := dict_set d (count_of (ip_frequency h) d + 1) (ip_frequency h),
                 connection_rates :=
                   dict_set p (filter (\<lambda>t. round_double (current_time - t) \<le> 60) rates)
                     (connection_rates h)\<rparr>
      in if total_connections h1 mod 100 = 0 then cleanup_old_connections current_time h1 else h1)"

text \<open>
  \<^verbatim>\<open>process_connection_event\<close>, in the order of the source; \<open>score_event\<close> is its
  threat-analysis step, with and without a detector. The dictionary that
  \<^verbatim>\<open>enrich_connection_event\<close> returns is the object stored under \<open>conn_id\<close>, so the
  later assignments of \<open>threat_score\<close> and \<open>is_suspicious\<close> show in the store as
  long as the sweep inside \<^verbatim>\<open>update_statistics\<close> has not deleted that entry.
\<close>

definition score_event :: "env \<Rightarrow> detector option \<Rightarrow> enriched_event \<Rightarrow> enriched_event \<times> detector option" where
  "score_event ev det_opt enriched_event =
     (case det_opt of
        Some det \<Rightarrow>
          (let (score, det1) = analyze_connection ev det enriched_event
           in (enriched_event\<lparr>threat_score := Some score, is_suspicious := Some (score \<ge> 50)\<rparr>,
               Some det1))
      | None \<Rightarrow> (enriched_event\<lparr>threat_score := Some 0, is_suspicious := Some False\<rparr>, None))"

definition process_connection_event :: "env \<Rightarrow> proc_lookup \<Rightarrow> raw_event \<Rightarrow> handler \<Rightarrow> handler" where
  "process_connection_event ev proc event h =
     (let conn_id = conn_id_of event;
          enriched_event = enrich_connection_event proc event;
          h1 = h\<lparr>connections := dict_set conn_id enriched_event (connections h),
                 connection_queue := deque_append (max_connections h) conn_id (connection_queue h)\<rparr>;
          h2 = update_statistics (now ev) enriched_event h1;
          (scored, det') = score_event ev (threat_detector h2) enriched_event;
          h3 = h2\<lparr>connections :=
                    (if dict_contains (connections h2) conn_id
                     then dict_set conn_id scored (connections h2) else connections h2),
                  threat_detector := det'\<rparr>;
          h4 = h3\<lparr>total_connections := total_connections h3 + 1\<rparr>
      in case websocket_handler h4 of
           None \<Rightarrow> h4
         | Some ws \<Rightarrow> h4\<lparr>websocket_handler := Some (broadcast_connection (now ev) scored ws)\<rparr>)"

text \<open>A sequence of ingests, each with what it reads from outside.\<close>

definition ingest_all :: "(env \<times> proc_lookup \<times> raw_event) list \<Rightarrow> handler \<Rightarrow> handler" where
  "ingest_all evs h = fold (\<lambda>(ev, proc, event) h'. process_connection_event ev proc event h') evs h"

text \<open>\<^verbatim>\<open>get_recent_connections\<close>. \<open>slice_last\<close> is the slice \<^verbatim>\<open>xs[-limit:]\<close>, which
  is the whole list for \<open>limit = 0\<close>; \<open>sorted_desc\<close> is \<^verbatim>\<open>sorted(..., reverse=True)\<close>,
  a stable sort: elements with equal keys keep their order.\<close>

definition slice_last :: "int \<Rightarrow> 'a list \<Rightarrow> 'a list" where
  "slice_last limit xs =
     (if limit > 0 then drop (length xs - nat limit) xs else drop (nat (- limit)) xs)"

definition sorted_desc :: "('a \<Rightarrow> nat) \<Rightarrow> 'a list \<Rightarrow> 'a list" where
  "sorted_desc key xs = sort_key (\<lambda>x. - int (key x)) xs"

definition get_recent_connections :: "int \<Rightarrow> handler \<Rightarrow> enriched_event list" where
  "get_recent_connections limit h =
     (let recent_ids = slice_last limit (connection_queue h);
          found = concat (map (\<lambda>conn_id. case dict_get (connections h) conn_id of
                                           None \<Rightarrow> [] | Some e \<Rightarrow> [e]) recent_ids)
      in sorted_desc (\<lambda>e. timestamp (raw e)) found)"

text \<open>\<^verbatim>\<open>get_statistics\<close>, without its three floating-point ratios.\<close>

record statistics =
  st_total_connections :: nat
  active_connections :: nat
  active_processes :: nat
  suspicious_connections :: nat
  top_processes :: "(nat \<times> proc_stats) list"
  top_destinations :: "(nat \<times> nat) list"

definition get_statistics :: "rat \<Rightarrow> handler \<Rightarrow> statistics" where
  "get_statistics current_time h =
     \<lparr>st_total_connections = total_connections h,
      active_connections = length (connections h),
      active_processes =
        length (filter (\<lambda>(p, st). round_double (current_time - last_seen st) < 300)
                  (process_stats h)),
      suspicious_connections =
        length (filter (\<lambda>(c, e). get_is_suspicious e) (connections h)),
      top_processes = take 10 (sorted_desc (\<lambda>(p, st). connection_count st) (process_stats h)),
      top_destinations = take 10 (sorted_desc snd (ip_frequency h))\<rparr>"

section \<open>Notions used to state the properties\<close>

text \<open>A dictionary holds each key once.\<close>

definition wf_dict :: "('k, 'v) dict \<Rightarrow> bool" where
  "wf_dict d = distinct (map fst d)"

text \<open>Example inputs: a clock reading on a weekday at noon, an event of process \<open>p\<close> to
  203.0.113.5 at kernel time \<open>secs\<close> seconds, and a shell started from \<^verbatim>\<open>/tmp\<close>.\<close>

definition ex_env :: "rat \<Rightarrow> env" where
  "ex_env t = \<lparr>now = t, hour = 12, weekday = 2, anomaly_score = 0\<rparr>"

definition ex_event :: "nat \<Rightarrow> nat \<Rightarrow> nat \<Rightarrow> raw_event" where
  "ex_event secs p port =
     \<lparr>timestamp = secs * 1000000000, pid = p, comm = ''curl'', cmdline = ''curl'',
      saddr = 167772161, daddr = 3405803781, sport = 50000, dport = port, protocol = 6\<rparr>"

definition ex_proc :: proc_lookup where
  "ex_proc = ProcFound ''bash'' ''bash -i'' ''/tmp/x'' 1 ''root'' 0 ''running''"

text \<open>An ingest for which only the anomaly detection scores: a known pid, an ordinary
  process and port, 100 buffered feature vectors, and a mean absolute z-score of 1.2 (the
  double nearest to it).\<close>

definition ex_trained_detector :: detector where
  "ex_trained_detector =
     new_detector\<lparr>process_first_connection := {|4242|},
                  connection_features := replicate 100 (replicate 8 0)\<rparr>"

definition ex_env_anomaly :: env where
  "ex_env_anomaly =
     \<lparr>now = 6, hour = 12, weekday = 2, anomaly_score = 5404319552844595 / 4503599627370496\<rparr>"

definition ex_proc_nginx :: proc_lookup where
  "ex_proc_nginx = ProcFound ''nginx'' ''nginx'' ''/usr/sbin/nginx'' 1 ''www-data'' 0 ''running''"

text \<open>A detector that has recorded \<open>n\<close> connections of pid 4242 to one destination at
  clock 6.\<close>

definition ex_detector :: "nat \<Rightarrow> detector" where
  "ex_detector n =
     new_detector\<lparr>process_connection_history :=
       [(4242, replicate n \<lparr>h_timestamp = 6, h_dst_ip = ''203.0.113.5'', h_dst_port = 443\<rparr>)]\<rparr>"

text \<open>Notions for runs of sends. \<open>stays_broken\<close>: in a run, once a send to the client
  has met a broken socket, every later send to that client meets one too.
  \<open>exact_differences\<close>: the difference of any two of the clock readings is a double, so
  that the source computes the age of a timestamp without rounding (as it does for the
  readings of \<^verbatim>\<open>time.time()\<close> of one day).
  \<open>in_window\<close>: the frames a client received in the half-open second from \<open>s\<close>.
  \<open>window_inv\<close>: the client's stored timestamps are the frames it received less than one
  second before the last admission check, and no half-open second holds more frames than
  the limit.\<close>

fun stays_broken :: "string \<Rightarrow> (rat \<times> string \<times> socket \<times> message) list \<Rightarrow> bool" where
  "stays_broken client_id [] = True"
| "stays_broken client_id ((t, c, websocket, msg) # reqs) =
     ((if c = client_id \<and> websocket = Broken
       then list_all (\<lambda>(t', c', websocket', msg'). c' \<noteq> client_id \<or> websocket' = Broken) reqs
       else True)
      \<and> stays_broken client_id reqs)"

definition exact_differences :: "rat list \<Rightarrow> bool" where
  "exact_differences ts = list_all (\<lambda>a. list_all (\<lambda>b. round_double (a - b) = a - b) ts) ts"

definition in_window :: "rat \<Rightarrow> rat list \<Rightarrow> rat list" where
  "in_window s ds = filter (\<lambda>d. s \<le> d \<and> d < s + 1) ds"

definition window_inv :: "string \<Rightarrow> ws_handler \<Rightarrow> rat \<Rightarrow> bool" where
  "window_inv client_id ws t0 =
     ((\<exists>tl. tl \<le> t0 \<and>
         window_of ws client_id = filter (\<lambda>ts. tl - ts < 1) (delivered_times client_id ws))
      \<and> (\<forall>s. length (in_window s (delivered_times client_id ws)) \<le> rate_limit ws))"

text \<open>Example broker states: one client just registered at clock 2, a burst of \<open>n\<close>
  broadcast frames to it, all with the clock reading 2, and three frames to it at clocks
  2, 2.5 and 3.\<close>

definition ex_ws :: ws_handler where
  "ex_ws = register_client 2 ''c1'' Open new_ws_handler"

definition ex_frame :: message where
  "ex_frame = ConnectionMsg (enrich_connection_event ex_proc (ex_event 2 4242 4444))"

definition ex_burst_reqs :: "nat \<Rightarrow> (rat \<times> string \<times> socket \<times> message) list" where
  "ex_burst_reqs n = replicate n (2, ''c1'', Open, ex_frame)"

definition ex_three_reqs :: "(rat \<times> string \<times> socket \<times> message) list" where
  "ex_three_reqs =
     [(2, ''c1'', Open, ex_frame), (5 / 2, ''c1'', Open, ex_frame), (3, ''c1'', Open, ex_frame)]"

text \<open>The \<^verbatim>\<open>data\<close> member of a request as \<^verbatim>\<open>data.get('data', {})\<close> reads it, when it
  is an object or absent.\<close>

definition request_data :: "(string \<times> json) list \<Rightarrow> (string \<times> json) list option" where
  "request_data data =
     (case map_of data ''data'' of
        None \<Rightarrow> Some []
      | Some (JObj inner) \<Rightarrow> Some inner
      | Some _ \<Rightarrow> None)"

section \<open>Rounding to a double\<close>

lemma pow2_pos: "0 < pow2 e"
  by (simp add: pow2_def)

lemma round_half_even_nonneg: "0 \<le> x \<Longrightarrow> 0 \<le> round_half_even x"
proof -
  assume "0 \<le> x"
  then have "0 \<le> \<lfloor>x\<rfloor>" by simp
  then show ?thesis by (simp add: round_half_even_def Let_def)
qed

lemma round_double_zero: "round_double 0 = 0"
  by (simp add: round_double_def)

text \<open>Rounding keeps the sign: a double of a non-negative number is not negative, and a
  double of a number that is not positive is not positive.\<close>

lemma round_double_nonneg:
  assumes "0 \<le> x"
  shows "0 \<le> round_double x"
proof (cases "x = 0")
  case True
  then show ?thesis by (simp add: round_double_zero)
next
  case False
  let ?ulp = "pow2 (max (binary_exponent \<bar>x\<bar>) (- 1022) - 52)"
  have p: "0 < ?ulp" by (rule pow2_pos)
  have "0 \<le> \<bar>x\<bar> / ?ulp" using p by simp
  then have "0 \<le> round_half_even (\<bar>x\<bar> / ?ulp)" by (rule round_half_even_nonneg)
  then have "(0::rat) \<le> of_int (round_half_even (\<bar>x\<bar> / ?ulp)) * ?ulp" using p by simp
  moreover have "sgn x = 1" using assms False by simp
  ultimately show ?thesis using False by (simp add: round_double_def Let_def)
qed

lemma round_double_nonpos:
  assumes "x \<le> 0"
  shows "round_double x \<le> 0"
proof (cases "x = 0")
  case True
  then show ?thesis by (simp add: round_double_zero)
next
  case False
  let ?ulp = "pow2 (max (binary_exponent \<bar>x\<bar>) (- 1022) - 52)"
  have p: "0 < ?ulp" by (rule pow2_pos)
  have "0 \<le> \<bar>x\<bar> / ?ulp" using p by simp
  then have "0 \<le> round_half_even (\<bar>x\<bar> / ?ulp)" by (rule round_half_even_nonneg)
  then have "(0::rat) \<le> of_int (round_half_even (\<bar>x\<bar> / ?ulp)) * ?ulp" using p by simp
  moreover have "sgn x = - 1" using assms False by simp
  ultimately show ?thesis using False by (simp add: round_double_def Let_def)
qed

text \<open>Evaluation of \<open>round_double\<close> at given numbers.\<close>

lemma floor_log2_small: "n < 2 \<Longrightarrow> floor_log2 n = 0"
  by (simp add: floor_log2.simps)

lemma floor_log2_step: "2 \<le> n \<Longrightarrow> floor_log2 n = Suc (floor_log2 (n div 2))"
  by (subst floor_log2.simps) simp

lemma floor_numeral_quotient: "\<lfloor>(numeral a :: rat) / numeral b\<rfloor> = numeral a div numeral b"
  using floor_divide_of_int_eq [of "numeral a" "numeral b", where ?'a = rat] by simp

lemma ceiling_numeral_quotient:
  "\<lceil>(numeral a :: rat) / numeral b\<rceil> = - ((- numeral a) div numeral b)"
  using floor_divide_of_int_eq [of "- numeral a" "numeral b", where ?'a = rat]
  by (simp add: ceiling_def)

text \<open>The double \<^verbatim>\<open>1.2\<close> is \<open>5404319552844595 / 4503599627370496\<close>; a third of it,
  \<^verbatim>\<open>1.2 / 3.0\<close>, is \<^verbatim>\<open>0.39999999999999997\<close>, and 50 times that is \<^verbatim>\<open>20.0\<close>.\<close>

lemma round_double_anomaly:
  "round_double (5404319552844595 / 13510798882111488) = 7205759403792793 / 18014398509481984"
proof -
  have e: "binary_exponent (5404319552844595 / 13510798882111488) = - 2"
    by (simp add: binary_exponent_def floor_log2_small floor_log2_step ceiling_numeral_quotient)
  have r: "round_half_even (21617278211378380 / 3) = 7205759403792793"
    by (simp add: round_half_even_def Let_def floor_numeral_quotient)
  show ?thesis by (simp add: round_double_def e pow2_def r Let_def)
qed

lemma round_double_anomaly_50:
  "round_double (180143985094819825 / 9007199254740992) = 20"
proof -
  have e: "binary_exponent (180143985094819825 / 9007199254740992) = 4"
    by (simp add: binary_exponent_def floor_log2_small floor_log2_step floor_numeral_quotient)
  have r: "round_half_even (180143985094819825 / 32) = 5629499534213120"
    by (simp add: round_half_even_def Let_def floor_numeral_quotient)
  show ?thesis by (simp add: round_double_def e pow2_def r Let_def)
qed

text \<open>A kernel time one nanosecond before 1700000000 s is 1700000000 s as a double.\<close>

lemma round_double_nanosecond:
  "round_double (1699999999999999999 / 1000000000) = 1700000000"
proof -
  have e: "binary_exponent (1699999999999999999 / 1000000000) = 30"
    by (simp add: binary_exponent_def floor_log2_small floor_log2_step floor_numeral_quotient)
  have r: "round_half_even (1699999999999999999 * 4194304 / 1000000000) = 7130316800000000"
    by (simp add: round_half_even_def Let_def floor_numeral_quotient)
  show ?thesis using r by (simp add: round_double_def e pow2_def Let_def)
qed

text \<open>One second and half a second are doubles, and rounding is symmetric.\<close>

lemma round_double_minus: "round_double (- x) = - round_double x"
  by (simp add: round_double_def Let_def)

lemma round_double_one: "round_double 1 = 1"
proof -
  have e: "binary_exponent 1 = 0"
    by (simp add: binary_exponent_def floor_log2_small)
  have r: "round_half_even 4503599627370496 = 4503599627370496"
    by (simp add: round_half_even_def Let_def)
  show ?thesis by (simp add: round_double_def e pow2_def r Let_def)
qed

lemma round_double_half: "round_double (1 / 2) = 1 / 2"
proof -
  have e: "binary_exponent (1 / 2) = - 1"
    by (simp add: binary_exponent_def floor_log2_small)
  have r: "round_half_even 4503599627370496 = 4503599627370496"
    by (simp add: round_half_even_def Let_def)
  show ?thesis by (simp add: round_double_def e pow2_def r Let_def)
qed

lemma int_of_float_range: "0 \<le> x \<Longrightarrow> x \<le> 100 \<Longrightarrow> 0 \<le> int_of_float x \<and> int_of_float x \<le> 100"
  by (simp add: int_of_float_def le_floor_iff floor_le_iff)


section \<open>Dictionaries\<close>

lemma dict_get_set: "dict_get (dict_set k v d) k' = (if k' = k then Some v else dict_get d k')"
  by (simp add: dict_get_def dict_set_def update_conv')

lemma wf_dict_set: "wf_dict d \<Longrightarrow> wf_dict (dict_set k v d)"
  by (simp add: wf_dict_def dict_set_def distinct_update)

lemma wf_dict_filter: "wf_dict d \<Longrightarrow> wf_dict (filter P d)"
  by (simp add: wf_dict_def distinct_map_filter)

lemma set_dict_set: "(k', v') \<in> set (dict_set k v d) \<Longrightarrow> (k' = k \<and> v' = v) \<or> (k', v') \<in> set d"
  unfolding dict_set_def by (induction d) (auto split: if_splits)

lemma set_dict_set_wf: "wf_dict d \<Longrightarrow> (k, v') \<in> set (dict_set k v d) \<Longrightarrow> v' = v"
  unfolding dict_set_def wf_dict_def by (induction d) (auto split: if_splits simp: rev_image_eqI)

lemma dict_contains_set: "dict_contains (dict_set k v d) k' = (k' = k \<or> dict_contains d k')"
  by (auto simp: dict_contains_def dict_set_def update_keys)

lemma dict_contains_simps:
  "dict_contains [] k' = False"
  "dict_contains ((k, v) # d) k' = (k' = k \<or> dict_contains d k')"
  by (auto simp: dict_contains_def)

lemma dict_contains_in: "(k, v) \<in> set d \<Longrightarrow> dict_contains d k"
  by (force simp: dict_contains_def)

lemma dict_get_in: "wf_dict d \<Longrightarrow> (k, v) \<in> set d \<Longrightarrow> dict_get d k = Some v"
  by (simp add: dict_get_def wf_dict_def)

lemma dict_get_Some_in: "dict_get d k = Some v \<Longrightarrow> (k, v) \<in> set d"
  by (simp add: dict_get_def map_of_SomeD)

section \<open>One ingest, field by field\<close>

lemma raw_enrich: "raw (enrich_connection_event proc event) = event"
  by (cases proc) (simp_all add: enrich_connection_event_def Let_def)

lemma enrich_unscored: "is_suspicious (enrich_connection_event proc event) = None"
  by (cases proc) (simp_all add: enrich_connection_event_def Let_def)

lemma cleanup_fields:
  "process_stats (cleanup_old_connections t h) = process_stats h"
  "connection_queue (cleanup_old_connections t h) = connection_queue h"
  "threat_detector (cleanup_old_connections t h) = threat_detector h"
  "websocket_handler (cleanup_old_connections t h) = websocket_handler h"
  "max_connections (cleanup_old_connections t h) = max_connections h"
  "retention_minutes (cleanup_old_connections t h) = retention_minutes h"
  "total_connections (cleanup_old_connections t h) = total_connections h"
  "ip_frequency (cleanup_old_connections t h) = ip_frequency h"
  by (simp_all add: cleanup_old_connections_def Let_def)

lemma update_statistics_fields:
  "connection_queue (update_statistics t e h) = connection_queue h"
  "threat_detector (update_statistics t e h) = threat_detector h"
  "websocket_handler (update_statistics t e h) = websocket_handler h"
  "max_connections (update_statistics t e h) = max_connections h"
  "retention_minutes (update_statistics t e h) = retention_minutes h"
  "total_connections (update_statistics t e h) = total_connections h"
  by (simp_all add: update_statistics_def Let_def cleanup_fields)

lemma update_statistics_connections:
  "connections (update_statistics t e h) =
     (if total_connections h mod 100 = 0
      then filter (\<lambda>(conn_id, event). \<not> is_old (round_double (t - of_int (retention_minutes h * 60))) event) (connections h)
      else connections h)"
  by (simp add: update_statistics_def Let_def cleanup_old_connections_def)

lemma update_statistics_process_stats:
  "process_stats (update_statistics t e h) =
     dict_set (pid (raw e))
       (record_connection t e
          (case dict_get (process_stats h) (pid (raw e)) of None \<Rightarrow> new_stats t e | Some st \<Rightarrow> st))
       (process_stats h)"
  by (simp add: update_statistics_def Let_def cleanup_fields)

lemma update_statistics_ip_frequency:
  "ip_frequency (update_statistics t e h) =
     dict_set (daddr (raw e)) (count_of (ip_frequency h) (daddr (raw e)) + 1) (ip_frequency h)"
  by (simp add: update_statistics_def Let_def cleanup_fields)

lemma pce_fields:
  "connection_queue (process_connection_event ev proc event h) =
     deque_append (max_connections h) (conn_id_of event) (connection_queue h)"
  "max_connections (process_connection_event ev proc event h) = max_connections h"
  "retention_minutes (process_connection_event ev proc event h) = retention_minutes h"
  "total_connections (process_connection_event ev proc event h) = total_connections h + 1"
  by (simp_all add: process_connection_event_def Let_def update_statistics_fields
       split: prod.splits option.splits)

lemma pce_process_stats:
  "process_stats (process_connection_event ev proc event h) =
     dict_set (pid event)
       (record_connection (now ev) (enrich_connection_event proc event)
          (case dict_get (process_stats h) (pid event) of
             None \<Rightarrow> new_stats (now ev) (enrich_connection_event proc event) | Some st \<Rightarrow> st))
       (process_stats h)"
  by (simp add: process_connection_event_def Let_def update_statistics_process_stats raw_enrich
       split: prod.splits option.splits)

lemma pce_ip_frequency:
  "ip_frequency (process_connection_event ev proc event h) =
     dict_set (daddr event) (count_of (ip_frequency h) (daddr event) + 1) (ip_frequency h)"
  by (simp add: process_connection_event_def Let_def update_statistics_ip_frequency raw_enrich
       split: prod.splits option.splits)

text \<open>The store after one ingest: the enriched event is written, the sweep runs when the
  running total is a multiple of 100, and the scored event replaces the enriched one if
  the sweep left it there.\<close>

lemma pce_connections:
  "connections (process_connection_event ev proc event h) =
     (let e0 = enrich_connection_event proc event;
          c1 = dict_set (conn_id_of event) e0 (connections h);
          c2 = (if total_connections h mod 100 = 0
                then filter (\<lambda>(conn_id, e). \<not> is_old (round_double (now ev - of_int (retention_minutes h * 60))) e) c1
                else c1)
      in if dict_contains c2 (conn_id_of event)
         then dict_set (conn_id_of event) (fst (score_event ev (threat_detector h) e0)) c2
         else c2)"
  by (simp add: process_connection_event_def Let_def update_statistics_fields
       update_statistics_connections split: prod.splits option.splits)

lemma pce_wf: "wf_dict (connections h) \<Longrightarrow> wf_dict (connections (process_connection_event ev proc event h))"
  by (simp add: pce_connections Let_def wf_dict_set wf_dict_filter)

section \<open>The threat score\<close>

text \<open>The detector that the rules see: \<open>track\<close> and the fifth rule leave the feature
  buffer of the anomaly detection alone.\<close>

lemma track_features: "connection_features (track ev det event) = connection_features det"
  by (simp add: track_def Let_def)

lemma first_time_features:
  "connection_features (snd (check_first_time_process det event)) = connection_features det"
  by (simp add: check_first_time_process_def Let_def)

lemma ml_score_value:
  "fst (ml_anomaly_detection ev det event) =
     (if length (connection_features det) < 100 then 0
      else min 1 (round_double (anomaly_score ev / 3)))"
  by (simp add: ml_anomaly_detection_def Let_def)

lemma analyze_fst:
  "fst (analyze_connection ev det event) =
     (let d1 = track ev det event;
          d2 = snd (check_first_time_process d1 event);
          rules = check_destination_rarity d1 event + check_connection_frequency (now ev) d1 event
                + check_suspicious_ports event + check_unusual_timing ev event
                + fst (check_first_time_process d1 event) + check_geographic_anomalies event
                + check_process_anomalies event + check_connection_patterns (now ev) d2 event;
          a = fst (ml_anomaly_detection ev d2 event)
      in int_of_float (min 100 (max 0 (max (of_nat rules) (round_double (a * 50))))))"
  by (simp add: analyze_connection_def rule_contributions_def Let_def add.assoc split: prod.splits)

lemma score_formula:
  "fst (analyze_connection ev det event) =
     (let d1 = track ev det event;
          d2 = snd (check_first_time_process d1 event);
          rules = check_destination_rarity d1 event + check_connection_frequency (now ev) d1 event
                + check_suspicious_ports event + check_unusual_timing ev event
                + fst (check_first_time_process d1 event) + check_geographic_anomalies event
                + check_process_anomalies event + check_connection_patterns (now ev) d2 event;
          a = fst (ml_anomaly_detection ev d2 event)
      in int_of_float (min 100 (max (of_nat rules) (round_double (a * 50)))))"
proof -
  have "max 0 (max (of_nat n) x) = max (of_nat n) (x::rat)" for n x
    by (simp add: max_absorb2 le_max_iff_disj)
  then show ?thesis by (simp add: analyze_fst Let_def)
qed

lemma score_range:
  "0 \<le> fst (analyze_connection ev det event) \<and> fst (analyze_connection ev det event) \<le> 100"
  unfolding analyze_fst Let_def by (rule int_of_float_range) simp_all

lemma score_event_Some:
  "fst (score_event ev (Some det) e0) =
     e0\<lparr>threat_score := Some (fst (analyze_connection ev det e0)),
        is_suspicious := Some (fst (analyze_connection ev det e0) \<ge> 50)\<rparr>"
  by (simp add: score_event_def split: prod.splits)

lemma stored_scored:
  assumes "wf_dict (connections h)"
    and "(conn_id_of event, e) \<in> set (connections (process_connection_event ev proc event h))"
  shows "e = fst (score_event ev (threat_detector h) (enrich_connection_event proc event))"
proof -
  let ?cid = "conn_id_of event"
  let ?e0 = "enrich_connection_event proc event"
  let ?c1 = "dict_set ?cid ?e0 (connections h)"
  let ?c2 = "if total_connections h mod 100 = 0
             then filter (\<lambda>(conn_id, e). \<not> is_old (round_double (now ev - of_int (retention_minutes h * 60))) e) ?c1
             else ?c1"
  have wf2: "wf_dict ?c2" using assms(1) by (simp add: wf_dict_set wf_dict_filter)
  show ?thesis
  proof (cases "dict_contains ?c2 ?cid")
    case True
    then have "(?cid, e) \<in> set (dict_set ?cid (fst (score_event ev (threat_detector h) ?e0)) ?c2)"
      using assms(2) by (simp add: pce_connections Let_def)
    then show ?thesis using wf2 set_dict_set_wf by fast
  next
    case False
    then have "(?cid, e) \<in> set ?c2" using assms(2) by (simp add: pce_connections Let_def)
    then show ?thesis using False dict_contains_in by fast
  qed
qed

lemma pce_websocket:
  "websocket_handler (process_connection_event ev proc event h) =
     map_option (broadcast_connection (now ev)
         (fst (score_event ev (threat_detector h) (enrich_connection_event proc event))))
       (websocket_handler h)"
  by (simp add: process_connection_event_def Let_def update_statistics_fields
       split: prod.splits option.splits)

text \<open>
  C1. The score that \<^verbatim>\<open>analyze_connection\<close> returns for an event is
  \<open>int(min(100, max(sum of the eight rule contributions, ml_score * 50)))\<close>: the eight
  rules are evaluated on the detector updated by the tracking step (the eighth on the
  detector that the fifth leaves), \<open>ml_score\<close> is 0 while fewer than 100 feature vectors
  are buffered and \<open>min(1.0, anomaly_score / 3.0)\<close> after that, and the product and the
  quotient are doubles. The score lies between 0 and 100. The event that the ingest scores
  is the enriched event with that score and the flag \<open>is_suspicious = (score \<ge> 50)\<close>; it
  is what the ingest broadcasts, and what the store holds under the connection id
  whenever the store still has that id after the ingest.
\<close>

theorem threat_score_combination:
  assumes "threat_detector h = Some det" and "wf_dict (connections h)"
  shows "let e0 = enrich_connection_event proc event;
             d1 = track ev det e0;
             d2 = snd (check_first_time_process d1 e0);
             rules = check_destination_rarity d1 e0 + check_connection_frequency (now ev) d1 e0
                   + check_suspicious_ports e0 + check_unusual_timing ev e0
                   + fst (check_first_time_process d1 e0) + check_geographic_anomalies e0
                   + check_process_anomalies e0 + check_connection_patterns (now ev) d2 e0;
             ml_score = (if length (connection_features det) < 100 then 0
                         else min 1 (round_double (anomaly_score ev / 3)));
             score = fst (analyze_connection ev det e0);
             scored = fst (score_event ev (threat_detector h) e0);
             h' = process_connection_event ev proc event h
         in score = int_of_float (min 100 (max (of_nat rules) (round_double (ml_score * 50))))
            \<and> 0 \<le> score \<and> score \<le> 100
            \<and> scored = e0\<lparr>threat_score := Some score, is_suspicious := Some (score \<ge> 50)\<rparr>
            \<and> websocket_handler h' =
                map_option (broadcast_connection (now ev) scored) (websocket_handler h)
            \<and> (\<forall>(c, e) \<in> set (connections h'). c = conn_id_of event \<longrightarrow> e = scored)"
proof -
  let ?e0 = "enrich_connection_event proc event"
  have ml: "fst (ml_anomaly_detection ev (snd (check_first_time_process (track ev det ?e0) ?e0)) ?e0) =
          (if length (connection_features det) < 100 then 0
           else min 1 (round_double (anomaly_score ev / 3)))"
    by (simp only: ml_score_value first_time_features track_features)
  have f: "fst (analyze_connection ev det ?e0) =
      int_of_float (min 100 (max (of_nat
        (check_destination_rarity (track ev det ?e0) ?e0
         + check_connection_frequency (now ev) (track ev det ?e0) ?e0
         + check_suspicious_ports ?e0 + check_unusual_timing ev ?e0
         + fst (check_first_time_process (track ev det ?e0) ?e0) + check_geographic_anomalies ?e0
         + check_process_anomalies ?e0
         + check_connection_patterns (now ev) (snd (check_first_time_process (track ev det ?e0) ?e0)) ?e0))
        (round_double ((if length (connection_features det) < 100 then 0
           else min 1 (round_double (anomaly_score ev / 3))) * 50))))"
    unfolding score_formula Let_def ml ..
  have s: "fst (score_event ev (threat_detector h) ?e0) =
      ?e0\<lparr>threat_score := Some (fst (analyze_connection ev det ?e0)),
          is_suspicious := Some (fst (analyze_connection ev det ?e0) \<ge> 50)\<rparr>"
    by (simp only: assms(1) score_event_Some)
  have st: "e = fst (score_event ev (threat_detector h) ?e0)"
    if "(conn_id_of event, e) \<in> set (connections (process_connection_event ev proc event h))" for e
    using assms(2) that by (rule stored_scored)
  show ?thesis
    unfolding Let_def
  proof (intro conjI)
    show "fst (analyze_connection ev det ?e0) =
      int_of_float (min 100 (max (of_nat
        (check_destination_rarity (track ev det ?e0) ?e0
         + check_connection_frequency (now ev) (track ev det ?e0) ?e0
         + check_suspicious_ports ?e0 + check_unusual_timing ev ?e0
         + fst (check_first_time_process (track ev det ?e0) ?e0) + check_geographic_anomalies ?e0
         + check_process_anomalies ?e0
         + check_connection_patterns (now ev) (snd (check_first_time_process (track ev det ?e0) ?e0)) ?e0))
        (round_double ((if length (connection_features det) < 100 then 0
           else min 1 (round_double (anomaly_score ev / 3))) * 50))))"
      by (rule f)
    show "0 \<le> fst (analyze_connection ev det ?e0)" using score_range by blast
    show "fst (analyze_connection ev det ?e0) \<le> 100" using score_range by blast
    show "fst (score_event ev (threat_detector h) ?e0) =
      ?e0\<lparr>threat_score := Some (fst (analyze_connection ev det ?e0)),
          is_suspicious := Some (fst (analyze_connection ev det ?e0) \<ge> 50)\<rparr>"
      by (rule s)
    show "websocket_handler (process_connection_event ev proc event h) =
       map_option (broadcast_connection (now ev) (fst (score_event ev (threat_detector h) ?e0)))
         (websocket_handler h)"
      by (rule pce_websocket)
    show "\<forall>(c, e) \<in> set (connections (process_connection_event ev proc event h)).
            c = conn_id_of event \<longrightarrow> e = fst (score_event ev (threat_detector h) ?e0)"
      using st by auto
  qed
qed

lemma ex_enriched:
  "enrich_connection_event ex_proc (ex_event 2 4242 4444) =
     \<lparr>raw = ex_event 2 4242 4444,
      enriched = Some \<lparr>src_ip = ''10.0.0.1'', dst_ip = ''203.0.113.5'', protocol_str = ''TCP'',
        process_name = ''bash'', cmdline_full = ''bash -i'', exe_path = ''/tmp/x'', parent_pid = 1,
        username = ''root'', create_time = 0, status = ''running'', country_code = ''Unknown'',
        is_private = False, is_safe_port = False\<rparr>,
      threat_score = None, is_suspicious = None\<rparr>"
  by (simp add: enrich_connection_event_def ex_proc_def ex_event_def Let_def format_ip_def
      str_nat.simps digit_char_def is_private_ip_def private_ranges_def handler_safe_ports_def)

lemma ex_rule_sum:
  "(let e0 = enrich_connection_event ex_proc (ex_event 2 4242 4444);
        d1 = track (ex_env 6) new_detector e0;
        d2 = snd (check_first_time_process d1 e0)
    in [check_destination_rarity d1 e0, check_connection_frequency (now (ex_env 6)) d1 e0,
        check_suspicious_ports e0, check_unusual_timing (ex_env 6) e0,
        fst (check_first_time_process d1 e0), check_geographic_anomalies e0,
        check_process_anomalies e0, check_connection_patterns (now (ex_env 6)) d2 e0]) =
   [0, 0, 30, 0, 15, 5, 50, 0]"
  unfolding ex_enriched
  by (simp add: track_def Let_def ex_env_def ex_event_def new_detector_def
      check_destination_rarity_def check_connection_frequency_def check_suspicious_ports_def
      check_unusual_timing_def check_first_time_process_def check_geographic_anomalies_def
      check_process_anomalies_def check_connection_patterns_def
      get_dst_ip_def get_process_name_def get_cmdline_full_def get_exe_path_def get_is_private_def
      common_dns_servers_def count_of_def dict_get_def dict_set_def history_of_def deque_append_def
      frequency_score_def recent_within_def rate_score_def suspicious_ports_def detector_safe_ports_def
      system_processes_def lower_def lower_char_def suspicious_names_def suspicious_args_def
      dict_contains_def round_double_zero)

lemma ex_ml_score:
  "fst (ml_anomaly_detection (ex_env 6)
          (snd (check_first_time_process
                  (track (ex_env 6) new_detector (enrich_connection_event ex_proc (ex_event 2 4242 4444)))
                  (enrich_connection_event ex_proc (ex_event 2 4242 4444))))
          (enrich_connection_event ex_proc (ex_event 2 4242 4444))) = 0"
  by (simp only: ml_score_value first_time_features track_features) (simp add: new_detector_def)

lemma ex_score:
  "fst (analyze_connection (ex_env 6) new_detector (enrich_connection_event ex_proc (ex_event 2 4242 4444))) = 100"
proof -
  have "fst (analyze_connection (ex_env 6) new_detector (enrich_connection_event ex_proc (ex_event 2 4242 4444))) =
          int_of_float (min 100 (max (of_nat (sum_list [0, 0, 30, 0, 15, 5, 50, 0])) (round_double (0 * 50))))"
    unfolding score_formula Let_def ex_ml_score
    using ex_rule_sum by (simp add: Let_def)
  then show ?thesis by (simp add: round_double_zero int_of_float_def)
qed

text \<open>With a mean absolute z-score of 1.2 and rule contributions of 5 the score is 20:
  \<^verbatim>\<open>min(1.0, 1.2 / 3.0) * 50\<close> is \<^verbatim>\<open>20.0\<close> in doubles.\<close>

lemma ex_anomaly_rules:
  "(let e0 = enrich_connection_event ex_proc_nginx (ex_event 2 4242 443);
        d1 = track ex_env_anomaly ex_trained_detector e0;
        d2 = snd (check_first_time_process d1 e0)
    in [check_destination_rarity d1 e0, check_connection_frequency (now ex_env_anomaly) d1 e0,
        check_suspicious_ports e0, check_unusual_timing ex_env_anomaly e0,
        fst (check_first_time_process d1 e0), check_geographic_anomalies e0,
        check_process_anomalies e0, check_connection_patterns (now ex_env_anomaly) d2 e0]) =
   [0, 0, 0, 0, 0, 5, 0, 0]"
  by (simp add: enrich_connection_event_def ex_proc_nginx_def format_ip_def
      str_nat.simps digit_char_def is_private_ip_def private_ranges_def handler_safe_ports_def
      track_def Let_def ex_env_anomaly_def ex_event_def ex_trained_detector_def new_detector_def
      check_destination_rarity_def check_connection_frequency_def check_suspicious_ports_def
      check_unusual_timing_def check_first_time_process_def check_geographic_anomalies_def
      check_process_anomalies_def check_connection_patterns_def
      get_dst_ip_def get_process_name_def get_cmdline_full_def get_exe_path_def get_is_private_def
      common_dns_servers_def count_of_def dict_get_def dict_set_def history_of_def deque_append_def
      frequency_score_def recent_within_def rate_score_def suspicious_ports_def detector_safe_ports_def
      system_processes_def lower_def lower_char_def suspicious_names_def suspicious_args_def
      dict_contains_def round_double_zero)

lemma ex_anomaly_score:
  "fst (analyze_connection ex_env_anomaly ex_trained_detector
          (enrich_connection_event ex_proc_nginx (ex_event 2 4242 443))) = 20"
proof -
  let ?e0 = "enrich_connection_event ex_proc_nginx (ex_event 2 4242 443)"
  have ml: "fst (ml_anomaly_detection ex_env_anomaly
                   (snd (check_first_time_process (track ex_env_anomaly ex_trained_detector ?e0) ?e0)) ?e0) =
              7205759403792793 / 18014398509481984"
    by (simp only: ml_score_value first_time_features track_features)
       (simp add: ex_trained_detector_def new_detector_def ex_env_anomaly_def round_double_anomaly)
  have "fst (analyze_connection ex_env_anomaly ex_trained_detector ?e0) =
          int_of_float (min 100 (max (of_nat (sum_list [0, 0, 0, 0, 0, 5, 0, 0]))
            (round_double (7205759403792793 / 18014398509481984 * 50))))"
    unfolding score_formula Let_def ml
    using ex_anomaly_rules by (simp add: Let_def)
  moreover have "(7205759403792793 / 18014398509481984 * 50 :: rat) = 180143985094819825 / 9007199254740992"
    by simp
  ultimately show ?thesis by (simp add: round_double_anomaly_50 int_of_float_def)
qed

lemma ex_conn_id: "conn_id_of (ex_event 2 4242 4444) = ''2000000000_4242_167772161_50000_3405803781_4444''"
  by (simp add: conn_id_of_def ex_event_def str_nat.simps digit_char_def)

lemma ex_not_old:
  "\<not> is_old (round_double (now (ex_env 6) - 300)) (enrich_connection_event ex_proc (ex_event 2 4242 4444))"
proof -
  have "round_double (now (ex_env 6) - 300) \<le> 0"
    by (rule round_double_nonpos) (simp add: ex_env_def)
  moreover have "0 \<le> round_double (of_nat (timestamp (raw (enrich_connection_event ex_proc (ex_event 2 4242 4444)))) / 1000000000)"
    by (rule round_double_nonneg) simp
  ultimately show ?thesis unfolding is_old_def by linarith
qed

lemma ex_connections:
  "connections (process_connection_event (ex_env 6) ex_proc (ex_event 2 4242 4444)
       (new_handler 3 5 (Some new_detector) 0)) =
     [(conn_id_of (ex_event 2 4242 4444),
       (enrich_connection_event ex_proc (ex_event 2 4242 4444))
         \<lparr>threat_score := Some 100, is_suspicious := Some True\<rparr>)]"
  by (simp add: pce_connections Let_def new_handler_def dict_set_def dict_contains_simps
      score_event_Some ex_score ex_not_old)

theorem threat_score_combination_witness:
  "threat_detector (new_handler 3 5 (Some new_detector) 0) = Some new_detector
   \<and> wf_dict (connections (new_handler 3 5 (Some new_detector) 0))
   \<and> connections (process_connection_event (ex_env 6) ex_proc (ex_event 2 4242 4444)
         (new_handler 3 5 (Some new_detector) 0)) =
       [(conn_id_of (ex_event 2 4242 4444),
         (enrich_connection_event ex_proc (ex_event 2 4242 4444))
           \<lparr>threat_score := Some 100, is_suspicious := Some True\<rparr>)]
   \<and> fst (analyze_connection (ex_env 6) new_detector
            (enrich_connection_event ex_proc (ex_event 2 4242 4444))) = 100
   \<and> fst (analyze_connection ex_env_anomaly ex_trained_detector
            (enrich_connection_event ex_proc_nginx (ex_event 2 4242 443))) = 20
   \<and> (let e0 = enrich_connection_event ex_proc (ex_event 2 4242 4444);
           d1 = track (ex_env 6) new_detector e0;
           d2 = snd (check_first_time_process d1 e0);
           rules = check_destination_rarity d1 e0 + check_connection_frequency (now (ex_env 6)) d1 e0
                 + check_suspicious_ports e0 + check_unusual_timing (ex_env 6) e0
                 + fst (check_first_time_process d1 e0) + check_geographic_anomalies e0
                 + check_process_anomalies e0 + check_connection_patterns (now (ex_env 6)) d2 e0;
           ml_score = (if length (connection_features new_detector) < 100 then 0
                       else min 1 (round_double (anomaly_score (ex_env 6) / 3)));
           score = fst (analyze_connection (ex_env 6) new_detector e0);
           scored = fst (score_event (ex_env 6)
                      (threat_detector (new_handler 3 5 (Some new_detector) 0)) e0);
           h' = process_connection_event (ex_env 6) ex_proc (ex_event 2 4242 4444)
                  (new_handler 3 5 (Some new_detector) 0)
       in score = int_of_float (min 100 (max (of_nat rules) (round_double (ml_score * 50))))
          \<and> 0 \<le> score \<and> score \<le> 100
          \<and> scored = e0\<lparr>threat_score := Some score, is_suspicious := Some (score \<ge> 50)\<rparr>
          \<and> websocket_handler h' =
              map_option (broadcast_connection (now (ex_env 6)) scored)
                (websocket_handler (new_handler 3 5 (Some new_detector) 0))
          \<and> (\<forall>(c, e) \<in> set (connections h'). c = conn_id_of (ex_event 2 4242 4444) \<longrightarrow> e = scored))"
proof -
  have d: "threat_detector (new_handler 3 5 (Some new_detector) 0) = Some new_detector"
    by (simp add: new_handler_def)
  have w: "wf_dict (connections (new_handler 3 5 (Some new_detector) 0))"
    by (simp add: new_handler_def wf_dict_def)
  show ?thesis
    using d w ex_connections ex_score ex_anomaly_score
      threat_score_combination [OF d w, of ex_proc "ex_event 2 4242 4444" "ex_env 6"]
    by blast
qed

section \<open>Safe ports\<close>

text \<open>
  C5. \<^verbatim>\<open>enrich_connection_event\<close> tests the port against the handler's own
  \<^verbatim>\<open>safe_ports\<close>, which lacks 9418: an event to port 9418, a member of SafePorts, is
  enriched with \<open>is_safe_port = False\<close>, whatever the process lookup gives.
\<close>

theorem port_9418_not_safe:
  "9418 \<in> SafePorts
   \<and> map_option is_safe_port (enriched (enrich_connection_event ex_proc (ex_event 2 4242 9418))) = Some False
   \<and> map_option is_safe_port (enriched (enrich_connection_event NoSuchProcess (ex_event 2 4242 9418))) = Some False
   \<and> map_option is_safe_port (enriched (enrich_connection_event AccessDenied (ex_event 2 4242 9418))) = Some False
   \<and> 9418 \<in> set detector_safe_ports"
  by (simp add: SafePorts_def enrich_connection_event_def Let_def ex_proc_def ex_event_def
      handler_safe_ports_def detector_safe_ports_def)

section \<open>Per-process statistics\<close>

lemma record_connection_ok:
  assumes "fcard (unique_destinations st) \<le> connection_count st"
    and "suspicious_count st \<le> connection_count st"
  shows "fcard (unique_destinations (record_connection t e st)) \<le> connection_count (record_connection t e st)
         \<and> suspicious_count (record_connection t e st) \<le> connection_count (record_connection t e st)"
  using assms by (simp add: record_connection_def fcard_finsert_if)

lemma pce_stats_ok:
  assumes "\<forall>(p, st) \<in> set (process_stats h).
             fcard (unique_destinations st) \<le> connection_count st \<and> suspicious_count st \<le> connection_count st"
  shows "\<forall>(p, st) \<in> set (process_stats (process_connection_event ev proc event h)).
             fcard (unique_destinations st) \<le> connection_count st \<and> suspicious_count st \<le> connection_count st"
proof -
  let ?e0 = "enrich_connection_event proc event"
  let ?old = "case dict_get (process_stats h) (pid event) of None \<Rightarrow> new_stats (now ev) ?e0 | Some st \<Rightarrow> st"
  have old_ok: "fcard (unique_destinations ?old) \<le> connection_count ?old
                \<and> suspicious_count ?old \<le> connection_count ?old"
  proof (cases "dict_get (process_stats h) (pid event)")
    case None
    then show ?thesis by (simp add: new_stats_def)
  next
    case (Some st)
    then have "(pid event, st) \<in> set (process_stats h)" by (rule dict_get_Some_in)
    with assms Some show ?thesis by auto
  qed
  have "fcard (unique_destinations st) \<le> connection_count st \<and> suspicious_count st \<le> connection_count st"
    if "(p, st) \<in> set (process_stats (process_connection_event ev proc event h))" for p st
  proof -
    from that have "(p = pid event \<and> st = record_connection (now ev) ?e0 ?old) \<or> (p, st) \<in> set (process_stats h)"
      unfolding pce_process_stats by (rule set_dict_set)
    then show ?thesis
      using record_connection_ok [of ?old "now ev" ?e0] old_ok assms by auto
  qed
  then show ?thesis by auto
qed

lemma ingest_all_stats_ok:
  assumes "\<forall>(p, st) \<in> set (process_stats h).
             fcard (unique_destinations st) \<le> connection_count st \<and> suspicious_count st \<le> connection_count st"
  shows "\<forall>(p, st) \<in> set (process_stats (ingest_all evs h)).
             fcard (unique_destinations st) \<le> connection_count st \<and> suspicious_count st \<le> connection_count st"
  using assms
proof (induction evs arbitrary: h)
  case Nil
  then show ?case by (simp add: ingest_all_def)
next
  case (Cons x evs)
  obtain ev proc event where x: "x = (ev, proc, event)" by (cases x) auto
  have "ingest_all (x # evs) h = ingest_all evs (process_connection_event ev proc event h)"
    by (simp add: ingest_all_def x)
  then show ?case using Cons.IH [OF pce_stats_ok [OF Cons.prems]] by simp
qed

text \<open>
  C8. After any sequence of ingests into a handler that starts without process statistics,
  every pid in \<open>process_stats\<close> has at most \<open>connection_count\<close> unique destinations
  and a \<open>suspicious_count\<close> of at most \<open>connection_count\<close>.
\<close>

theorem process_stats_bounded:
  assumes "process_stats h = []"
  shows "\<forall>(p, st) \<in> set (process_stats (ingest_all evs h)).
           fcard (unique_destinations st) \<le> connection_count st
           \<and> suspicious_count st \<le> connection_count st"
  by (rule ingest_all_stats_ok) (simp add: assms)

lemma ex_process_stats:
  "process_stats (ingest_all [(ex_env 6, ex_proc, ex_event 2 4242 4444), (ex_env 6, ex_proc, ex_event 3 4242 4444)]
       (new_handler 3 5 (Some new_detector) 0)) =
     [(4242, \<lparr>ps_name = ''curl'', connection_count = 2, first_seen = 6, last_seen = 6,
              unique_destinations = {|3405803781|}, suspicious_count = 0\<rparr>)]"
  by (simp add: ingest_all_def pce_process_stats new_handler_def dict_get_def dict_set_def
      new_stats_def record_connection_def get_is_suspicious_def enrich_unscored raw_enrich
      ex_event_def ex_env_def)

theorem process_stats_bounded_witness:
  "process_stats (new_handler 3 5 (Some new_detector) 0) = []
   \<and> process_stats (ingest_all [(ex_env 6, ex_proc, ex_event 2 4242 4444), (ex_env 6, ex_proc, ex_event 3 4242 4444)]
        (new_handler 3 5 (Some new_detector) 0)) \<noteq> []
   \<and> list_all (\<lambda>(p, st). fcard (unique_destinations st) \<le> connection_count st
                           \<and> suspicious_count st \<le> connection_count st)
        (process_stats (ingest_all
          [(ex_env 6, ex_proc, ex_event 2 4242 4444), (ex_env 6, ex_proc, ex_event 3 4242 4444)]
          (new_handler 3 5 (Some new_detector) 0)))"
proof -
  have e: "process_stats (new_handler 3 5 (Some new_detector) 0) = []"
    by (simp add: new_handler_def)
  have n: "process_stats (ingest_all [(ex_env 6, ex_proc, ex_event 2 4242 4444), (ex_env 6, ex_proc, ex_event 3 4242 4444)]
        (new_handler 3 5 (Some new_detector) 0)) \<noteq> []"
    by (simp add: ex_process_stats)
  show ?thesis
    using e n process_stats_bounded [OF e] unfolding list_all_iff by blast
qed

section \<open>Order of the steps of one ingest\<close>

text \<open>
  C2. \<^verbatim>\<open>process_connection_event\<close> calls \<^verbatim>\<open>update_statistics\<close> before the threat
  analysis, while the event has no \<open>is_suspicious\<close> key yet. An event that is then
  scored 100 and stored as suspicious leaves the \<open>suspicious_count\<close> of its pid at 0.
\<close>

lemma ex_one_process_stats:
  "process_stats (process_connection_event (ex_env 6) ex_proc (ex_event 2 4242 4444)
        (new_handler 3 5 (Some new_detector) 0)) =
     [(4242, \<lparr>ps_name = ''curl'', connection_count = 1, first_seen = 6, last_seen = 6,
              unique_destinations = {|3405803781|}, suspicious_count = 0\<rparr>)]"
  by (simp add: pce_process_stats new_handler_def dict_get_def dict_set_def
      new_stats_def record_connection_def get_is_suspicious_def enrich_unscored raw_enrich
      ex_event_def ex_env_def)

theorem suspicious_event_not_counted:
  "map (\<lambda>(c, e). (threat_score e, is_suspicious e))
     (connections (process_connection_event (ex_env 6) ex_proc (ex_event 2 4242 4444)
        (new_handler 3 5 (Some new_detector) 0))) = [(Some 100, Some True)]
   \<and> map (\<lambda>(p, st). (p, connection_count st, suspicious_count st))
       (process_stats (process_connection_event (ex_env 6) ex_proc (ex_event 2 4242 4444)
          (new_handler 3 5 (Some new_detector) 0))) = [(4242, 1, 0)]"
  by (simp add: ex_connections ex_one_process_stats)

section \<open>Capacity of the store\<close>

lemma dict_set_self: "(k, v) \<in> set (dict_set k v d)"
  unfolding dict_set_def by (induction d) auto

lemma dict_set_keys:
  "map fst (dict_set k v d) = (if dict_contains d k then map fst d else map fst d @ [k])"
  by (simp add: dict_set_def dict_contains_def update_keys)

lemma not_old_early:
  assumes "c \<le> 0"
  shows "\<not> is_old c e"
proof -
  have "0 \<le> round_double (of_nat (timestamp (raw e)) / 1000000000)"
    by (rule round_double_nonneg) simp
  with assms show ?thesis unfolding is_old_def by linarith
qed

text \<open>The age test compares doubles: an event whose kernel time is one nanosecond before
  the cutoff has the cutoff as its time in seconds, and is kept.\<close>

lemma is_old_nanosecond:
  "\<not> is_old 1700000000
       (enrich_connection_event proc ((ex_event 2 4242 4444)\<lparr>timestamp := 1699999999999999999\<rparr>))"
  by (simp add: is_old_def raw_enrich round_double_nanosecond)

text \<open>While the cutoff of the sweep is not after kernel time 0, an ingest only adds its
  connection id to the keys of the store.\<close>

lemma pce_keys:
  assumes "now ev - of_int (retention_minutes h * 60) \<le> 0"
  shows "map fst (connections (process_connection_event ev proc event h)) =
           (if dict_contains (connections h) (conn_id_of event) then map fst (connections h)
            else map fst (connections h) @ [conn_id_of event])"
proof -
  have "round_double (now ev - of_int (retention_minutes h * 60)) \<le> 0"
    using assms by (rule round_double_nonpos)
  then have f: "filter (\<lambda>(conn_id, e). \<not> is_old (round_double (now ev - of_int (retention_minutes h * 60))) e) c = c" for c
    using not_old_early by (simp add: case_prod_unfold)
  show ?thesis
    unfolding pce_connections Let_def f by (simp add: dict_contains_set dict_set_keys)
qed

lemma ex_conn_ids:
  "conn_id_of (ex_event 2 4242 4444) = ''2000000000_4242_167772161_50000_3405803781_4444''"
  "conn_id_of (ex_event 3 4242 4444) = ''3000000000_4242_167772161_50000_3405803781_4444''"
  "conn_id_of (ex_event 4 4242 4444) = ''4000000000_4242_167772161_50000_3405803781_4444''"
  "conn_id_of (ex_event 5 4242 4444) = ''5000000000_4242_167772161_50000_3405803781_4444''"
  by (simp_all add: conn_id_of_def ex_event_def str_nat.simps digit_char_def)

lemma ex_step_keys:
  assumes "retention_minutes h = 5"
  shows "map fst (connections (process_connection_event (ex_env 6) proc event h)) =
           (if dict_contains (connections h) (conn_id_of event) then map fst (connections h)
            else map fst (connections h) @ [conn_id_of event])"
  by (rule pce_keys) (simp add: assms ex_env_def)

lemma ex_four_keys:
  "map fst (connections (ingest_all
      [(ex_env 6, ex_proc, ex_event 2 4242 4444), (ex_env 6, ex_proc, ex_event 3 4242 4444),
       (ex_env 6, ex_proc, ex_event 4 4242 4444), (ex_env 6, ex_proc, ex_event 5 4242 4444)]
      (new_handler 3 5 (Some new_detector) 0))) =
   [''2000000000_4242_167772161_50000_3405803781_4444'',
    ''3000000000_4242_167772161_50000_3405803781_4444'',
    ''4000000000_4242_167772161_50000_3405803781_4444'',
    ''5000000000_4242_167772161_50000_3405803781_4444'']"
proof -
  let ?h0 = "new_handler 3 5 (Some new_detector) 0"
  let ?h1 = "process_connection_event (ex_env 6) ex_proc (ex_event 2 4242 4444) ?h0"
  let ?h2 = "process_connection_event (ex_env 6) ex_proc (ex_event 3 4242 4444) ?h1"
  let ?h3 = "process_connection_event (ex_env 6) ex_proc (ex_event 4 4242 4444) ?h2"
  let ?h4 = "process_connection_event (ex_env 6) ex_proc (ex_event 5 4242 4444) ?h3"
  have r0: "retention_minutes ?h0 = 5" by (simp add: new_handler_def)
  have r1: "retention_minutes ?h1 = 5" using r0 by (simp add: pce_fields)
  have r2: "retention_minutes ?h2 = 5" using r1 by (simp add: pce_fields)
  have r3: "retention_minutes ?h3 = 5" using r2 by (simp add: pce_fields)
  have k1: "map fst (connections ?h1) = [''2000000000_4242_167772161_50000_3405803781_4444'']"
    unfolding ex_step_keys [OF r0]
    by (simp add: new_handler_def dict_contains_def ex_conn_ids)
  have k2: "map fst (connections ?h2) =
     [''2000000000_4242_167772161_50000_3405803781_4444'',
      ''3000000000_4242_167772161_50000_3405803781_4444'']"
    unfolding ex_step_keys [OF r1] dict_contains_def k1 by (simp add: ex_conn_ids)
  have k3: "map fst (connections ?h3) =
     [''2000000000_4242_167772161_50000_3405803781_4444'',
      ''3000000000_4242_167772161_50000_3405803781_4444'',
      ''4000000000_4242_167772161_50000_3405803781_4444'']"
    unfolding ex_step_keys [OF r2] dict_contains_def k2 by (simp add: ex_conn_ids)
  have k4: "map fst (connections ?h4) =
     [''2000000000_4242_167772161_50000_3405803781_4444'',
      ''3000000000_4242_167772161_50000_3405803781_4444'',
      ''4000000000_4242_167772161_50000_3405803781_4444'',
      ''5000000000_4242_167772161_50000_3405803781_4444'']"
    unfolding ex_step_keys [OF r3] dict_contains_def k3 by (simp add: ex_conn_ids)
  show ?thesis unfolding ingest_all_def using k4 by simp
qed

text \<open>
  C3. With \<^verbatim>\<open>max_connections = 3\<close>, four events of kernel times 2 s to 5 s ingested
  at clock 6 s are all retained in \<open>connections\<close>: only the queue of connection ids
  is bounded, and nothing deletes from the dictionary what the queue drops.
\<close>

theorem store_exceeds_max_connections:
  "max_connections (ingest_all
      [(ex_env 6, ex_proc, ex_event 2 4242 4444), (ex_env 6, ex_proc, ex_event 3 4242 4444),
       (ex_env 6, ex_proc, ex_event 4 4242 4444), (ex_env 6, ex_proc, ex_event 5 4242 4444)]
      (new_handler 3 5 (Some new_detector) 0)) = 3
   \<and> length (connections (ingest_all
      [(ex_env 6, ex_proc, ex_event 2 4242 4444), (ex_env 6, ex_proc, ex_event 3 4242 4444),
       (ex_env 6, ex_proc, ex_event 4 4242 4444), (ex_env 6, ex_proc, ex_event 5 4242 4444)]
      (new_handler 3 5 (Some new_detector) 0))) = 4
   \<and> connection_queue (ingest_all
      [(ex_env 6, ex_proc, ex_event 2 4242 4444), (ex_env 6, ex_proc, ex_event 3 4242 4444),
       (ex_env 6, ex_proc, ex_event 4 4242 4444), (ex_env 6, ex_proc, ex_event 5 4242 4444)]
      (new_handler 3 5 (Some new_detector) 0)) =
     [conn_id_of (ex_event 3 4242 4444), conn_id_of (ex_event 4 4242 4444),
      conn_id_of (ex_event 5 4242 4444)]"
proof -
  let ?h = "ingest_all
      [(ex_env 6, ex_proc, ex_event 2 4242 4444), (ex_env 6, ex_proc, ex_event 3 4242 4444),
       (ex_env 6, ex_proc, ex_event 4 4242 4444), (ex_env 6, ex_proc, ex_event 5 4242 4444)]
      (new_handler 3 5 (Some new_detector) 0)"
  have "length (map fst (connections ?h)) = 4" unfolding ex_four_keys by simp
  then have l: "length (connections ?h) = 4" by simp
  have m: "max_connections ?h = 3" by (simp add: ingest_all_def pce_fields new_handler_def)
  have q: "connection_queue ?h =
     [conn_id_of (ex_event 3 4242 4444), conn_id_of (ex_event 4 4242 4444),
      conn_id_of (ex_event 5 4242 4444)]"
    by (simp add: ingest_all_def pce_fields new_handler_def deque_append_def)
  show ?thesis using l m q by simp
qed

section \<open>Ingesting the same event twice\<close>

lemma filter_key_one:
  "wf_dict d \<Longrightarrow> dict_contains d k \<Longrightarrow> length (filter (\<lambda>(c, e). c = k) d) = 1"
proof (induction d)
  case Nil
  then show ?case by (simp add: dict_contains_def)
next
  case (Cons x d)
  obtain c e where x: "x = (c, e)" by (cases x)
  show ?case
  proof (cases "c = k")
    case True
    with Cons.prems x have "k \<notin> fst ` set d" by (simp add: wf_dict_def)
    then have "\<forall>x \<in> set d. fst x \<noteq> k" by auto
    then have "filter (\<lambda>(c, e). c = k) d = []" by (auto simp: filter_empty_conv)
    with True x show ?thesis by simp
  next
    case False
    with Cons x show ?thesis by (simp add: wf_dict_def dict_contains_def)
  qed
qed

lemma raw_score_event: "raw (fst (score_event ev d e0)) = raw e0"
  by (cases d) (simp_all add: score_event_def split: prod.splits)

text \<open>After an ingest whose event the sweep does not remove, the store holds the scored
  event under the connection id, and holds it once.\<close>

lemma pce_stored:
  assumes "wf_dict (connections h)"
    and "total_connections h mod 100 \<noteq> 0
         \<or> \<not> is_old (round_double (now ev - of_int (retention_minutes h * 60)))
               (enrich_connection_event proc event)"
  shows "dict_get (connections (process_connection_event ev proc event h)) (conn_id_of event) =
           Some (fst (score_event ev (threat_detector h) (enrich_connection_event proc event)))"
    and "length (filter (\<lambda>(c, e). c = conn_id_of event)
           (connections (process_connection_event ev proc event h))) = 1"
proof -
  let ?cid = "conn_id_of event"
  let ?e0 = "enrich_connection_event proc event"
  let ?c1 = "dict_set ?cid ?e0 (connections h)"
  let ?c2 = "if total_connections h mod 100 = 0
             then filter (\<lambda>(conn_id, e). \<not> is_old (round_double (now ev - of_int (retention_minutes h * 60))) e) ?c1
             else ?c1"
  have "(?cid, ?e0) \<in> set ?c2" using assms(2) by (auto simp: dict_set_self)
  then have c: "dict_contains ?c2 ?cid" by (rule dict_contains_in)
  then have eq: "connections (process_connection_event ev proc event h) =
                   dict_set ?cid (fst (score_event ev (threat_detector h) ?e0)) ?c2"
    by (simp add: pce_connections Let_def)
  show "dict_get (connections (process_connection_event ev proc event h)) ?cid =
          Some (fst (score_event ev (threat_detector h) ?e0))"
    unfolding eq by (simp add: dict_get_set)
  have "wf_dict (connections (process_connection_event ev proc event h))"
    using assms(1) by (rule pce_wf)
  moreover have "dict_contains (connections (process_connection_event ev proc event h)) ?cid"
    unfolding eq by (simp add: dict_contains_set)
  ultimately show "length (filter (\<lambda>(c, e). c = ?cid)
           (connections (process_connection_event ev proc event h))) = 1"
    by (rule filter_key_one)
qed

lemma deque_append_twice:
  assumes "2 \<le> m"
  shows "\<exists>pre. deque_append m x (deque_append m x q) = pre @ [x, x]"
proof -
  let ?q1 = "drop (Suc (length q) - m) (q @ [x])"
  have "Suc (length q) - m \<le> length q" using assms by simp
  then have q1: "?q1 = drop (Suc (length q) - m) q @ [x]" by simp
  have "Suc (length ?q1) - m \<le> length (drop (Suc (length q) - m) q)" using assms by auto
  then have "drop (Suc (length ?q1) - m) (?q1 @ [x]) =
               drop (Suc (length ?q1) - m) (drop (Suc (length q) - m) q) @ [x, x]"
    unfolding q1 by simp
  then show ?thesis by (auto simp: deque_append_def Let_def)
qed

lemma slice_last_keeps_two:
  assumes "2 \<le> limit"
  shows "\<exists>pre'. slice_last limit (pre @ [x, x]) = pre' @ [x, x]"
proof -
  have "length (pre @ [x, x]) - nat limit \<le> length pre" using assms by simp
  then have "drop (length (pre @ [x, x]) - nat limit) (pre @ [x, x]) =
               drop (length (pre @ [x, x]) - nat limit) pre @ [x, x]"
    by simp
  then show ?thesis using assms by (auto simp: slice_last_def)
qed

lemma length_filter_sorted_desc:
  "length (filter P (sorted_desc key xs)) = length (filter P xs)"
proof -
  have "mset (filter P (sorted_desc key xs)) = mset (filter P xs)"
    by (simp add: sorted_desc_def)
  then show ?thesis by (metis size_mset)
qed

text \<open>
  C4, as the code has it. Two ingests of the same raw event leave exactly one entry under
  its connection id in \<open>connections\<close>, provided the age sweep does not remove it at the
  second ingest: either no sweep runs there (the running total is not a multiple of 100)
  or the event is not older than the retention period. The id is appended to the queue
  both times, so with a capacity and a limit of at least 2 the recent-connections listing
  returns the event at least twice.
\<close>

theorem ingest_twice_stored_once_listed_twice:
  assumes "wf_dict (connections h)"
    and "2 \<le> max_connections h" and "2 \<le> limit"
    and "(total_connections h + 1) mod 100 \<noteq> 0
         \<or> \<not> is_old (round_double (now ev2 - of_int (retention_minutes h * 60)))
               (enrich_connection_event proc2 event)"
  shows "length (filter (\<lambda>(c, e). c = conn_id_of event)
           (connections (process_connection_event ev2 proc2 event
              (process_connection_event ev1 proc1 event h)))) = 1
         \<and> 2 \<le> length (filter (\<lambda>e. raw e = event)
               (get_recent_connections limit (process_connection_event ev2 proc2 event
                  (process_connection_event ev1 proc1 event h))))"
proof -
  let ?h1 = "process_connection_event ev1 proc1 event h"
  let ?h2 = "process_connection_event ev2 proc2 event ?h1"
  let ?cid = "conn_id_of event"
  let ?s = "fst (score_event ev2 (threat_detector ?h1) (enrich_connection_event proc2 event))"
  have wf1: "wf_dict (connections ?h1)" using assms(1) by (rule pce_wf)
  have old: "total_connections ?h1 mod 100 \<noteq> 0
         \<or> \<not> is_old (round_double (now ev2 - of_int (retention_minutes ?h1 * 60)))
               (enrich_connection_event proc2 event)"
    using assms(4) by (simp add: pce_fields)
  have one: "length (filter (\<lambda>(c, e). c = ?cid) (connections ?h2)) = 1"
    using pce_stored(2) [OF wf1 old] .
  have get: "dict_get (connections ?h2) ?cid = Some ?s"
    using pce_stored(1) [OF wf1 old] .
  obtain pre where "connection_queue ?h2 = pre @ [?cid, ?cid]"
    using deque_append_twice [OF assms(2), of ?cid "connection_queue h"] by (auto simp: pce_fields)
  then obtain pre' where ids: "slice_last limit (connection_queue ?h2) = pre' @ [?cid, ?cid]"
    using slice_last_keeps_two [OF assms(3)] by metis
  have "raw ?s = event" by (simp add: raw_score_event raw_enrich)
  then have "2 \<le> length (filter (\<lambda>e. raw e = event)
                 (concat (map (\<lambda>conn_id. case dict_get (connections ?h2) conn_id of
                                            None \<Rightarrow> [] | Some e \<Rightarrow> [e])
                            (slice_last limit (connection_queue ?h2)))))"
    unfolding ids by (simp add: get)
  then have "2 \<le> length (filter (\<lambda>e. raw e = event) (get_recent_connections limit ?h2))"
    by (simp add: get_recent_connections_def Let_def length_filter_sorted_desc)
  with one show ?thesis by simp
qed

lemma ex_twice_not_old:
  "\<not> is_old (round_double (now (ex_env 6)
         - of_int (retention_minutes (new_handler 3 5 (Some new_detector) 0) * 60)))
      (enrich_connection_event ex_proc (ex_event 2 4242 4444))"
  by (simp add: new_handler_def ex_not_old)

theorem ingest_twice_stored_once_listed_twice_witness:
  "wf_dict (connections (new_handler 3 5 (Some new_detector) 0))
   \<and> 2 \<le> max_connections (new_handler 3 5 (Some new_detector) 0) \<and> (2::int) \<le> 1000
   \<and> (total_connections (new_handler 3 5 (Some new_detector) 0) + 1) mod 100 = 1
   \<and> length (filter (\<lambda>(c, e). c = conn_id_of (ex_event 2 4242 4444))
           (connections (process_connection_event (ex_env 6) ex_proc (ex_event 2 4242 4444)
              (process_connection_event (ex_env 6) ex_proc (ex_event 2 4242 4444)
                 (new_handler 3 5 (Some new_detector) 0))))) = 1
   \<and> 2 \<le> length (filter (\<lambda>e. raw e = ex_event 2 4242 4444)
               (get_recent_connections 1000 (process_connection_event (ex_env 6) ex_proc (ex_event 2 4242 4444)
                  (process_connection_event (ex_env 6) ex_proc (ex_event 2 4242 4444)
                     (new_handler 3 5 (Some new_detector) 0)))))"
proof -
  have w: "wf_dict (connections (new_handler 3 5 (Some new_detector) 0))"
    by (simp add: new_handler_def wf_dict_def)
  have m: "2 \<le> max_connections (new_handler 3 5 (Some new_detector) 0)"
    by (simp add: new_handler_def)
  have l: "(2::int) \<le> 1000" by simp
  have t: "(total_connections (new_handler 3 5 (Some new_detector) 0) + 1) mod 100 = 1"
    by (simp add: new_handler_def)
  then have s: "(total_connections (new_handler 3 5 (Some new_detector) 0) + 1) mod 100 \<noteq> 0
      \<or> \<not> is_old (round_double (now (ex_env 6)
               - of_int (retention_minutes (new_handler 3 5 (Some new_detector) 0) * 60)))
            (enrich_connection_event ex_proc (ex_event 2 4242 4444))"
    by simp
  show ?thesis
    using w m l t
      ingest_twice_stored_once_listed_twice [OF w m l s, of "ex_env 6" ex_proc]
    by blast
qed

lemma length_get_recent_connections:
  "length (get_recent_connections limit h) =
     length (filter (dict_contains (connections h)) (slice_last limit (connection_queue h)))"
proof -
  have "length (concat (map (\<lambda>conn_id. case dict_get d conn_id of None \<Rightarrow> [] | Some e \<Rightarrow> [e]) ids)) =
          length (filter (dict_contains d) ids)" for d :: "(string, enriched_event) dict" and ids
  proof (induction ids)
    case Nil
    then show ?case by simp
  next
    case (Cons i ids)
    have "dict_contains d i \<longleftrightarrow> dict_get d i \<noteq> None"
      by (simp add: dict_contains_def dict_get_def map_of_eq_None_iff)
    with Cons show ?case by (auto split: option.splits)
  qed
  then show ?thesis
    by (simp add: get_recent_connections_def Let_def sorted_desc_def)
qed

text \<open>
  C4, as the claim states it, fails: after two ingests of one raw event into a fresh
  handler the recent-connections listing has two entries, while the store has one.
\<close>

theorem ingest_twice_listed_twice:
  "length (get_recent_connections 1000
      (ingest_all [(ex_env 6, ex_proc, ex_event 2 4242 4444), (ex_env 6, ex_proc, ex_event 2 4242 4444)]
         (new_handler 3 5 (Some new_detector) 0))) = 2
   \<and> length (connections
      (ingest_all [(ex_env 6, ex_proc, ex_event 2 4242 4444), (ex_env 6, ex_proc, ex_event 2 4242 4444)]
         (new_handler 3 5 (Some new_detector) 0))) = 1"
proof -
  let ?h0 = "new_handler 3 5 (Some new_detector) 0"
  let ?h1 = "process_connection_event (ex_env 6) ex_proc (ex_event 2 4242 4444) ?h0"
  let ?h2 = "process_connection_event (ex_env 6) ex_proc (ex_event 2 4242 4444) ?h1"
  have r0: "retention_minutes ?h0 = 5" by (simp add: new_handler_def)
  have r1: "retention_minutes ?h1 = 5" using r0 by (simp add: pce_fields)
  have k1: "map fst (connections ?h1) = [conn_id_of (ex_event 2 4242 4444)]"
    unfolding ex_step_keys [OF r0] by (simp add: new_handler_def dict_contains_def)
  have k2: "map fst (connections ?h2) = [conn_id_of (ex_event 2 4242 4444)]"
    unfolding ex_step_keys [OF r1] dict_contains_def k1 by simp
  have q: "connection_queue ?h2 = [conn_id_of (ex_event 2 4242 4444), conn_id_of (ex_event 2 4242 4444)]"
    by (simp add: pce_fields new_handler_def deque_append_def)
  have "length (get_recent_connections 1000 ?h2) = 2"
    unfolding length_get_recent_connections q dict_contains_def k2 by (simp add: slice_last_def)
  moreover have "length (map fst (connections ?h2)) = 1" unfolding k2 by simp
  ultimately show ?thesis by (simp add: ingest_all_def)
qed

section \<open>The top lists of the statistics\<close>

lemma sorted_desc_sorted: "sorted_wrt (\<lambda>a b. key b \<le> key a) (sorted_desc key xs)"
proof -
  have "sorted (map (\<lambda>x. - int (key x)) (sorted_desc key xs))"
    unfolding sorted_desc_def by (rule sorted_sort_key)
  then show ?thesis by (simp add: sorted_wrt_map)
qed

lemma sorted_desc_stable:
  "filter (\<lambda>x. key x = k) (sorted_desc key xs) = filter (\<lambda>x. key x = k) xs"
proof -
  have "filter (\<lambda>x. - int (key x) = - int k) (sort_key (\<lambda>x. - int (key x)) xs) =
          filter (\<lambda>x. - int (key x) = - int k) xs"
    by (rule sort_key_stable)
  then show ?thesis by (simp add: sorted_desc_def)
qed

lemma mset_sorted_desc: "mset (sorted_desc key xs) = mset xs"
  by (simp add: sorted_desc_def)

text \<open>
  C7, as the code has it. \<open>top_processes\<close> is the first ten entries of the list that
  holds the entries of \<open>process_stats\<close> in descending order of \<open>connection_count\<close>,
  entries of equal count in the order the dictionary has them (the order in which the pids
  were first seen); \<open>top_destinations\<close> is the same for \<open>ip_frequency\<close> and its
  counts.
\<close>

theorem top_lists_sorted_stable:
  "(\<exists>L. top_processes (get_statistics t h) = take 10 L
        \<and> mset L = mset (process_stats h)
        \<and> sorted_wrt (\<lambda>a b. connection_count (snd b) \<le> connection_count (snd a)) L
        \<and> (\<forall>k. filter (\<lambda>x. connection_count (snd x) = k) L =
                 filter (\<lambda>x. connection_count (snd x) = k) (process_stats h)))
   \<and> (\<exists>L. top_destinations (get_statistics t h) = take 10 L
        \<and> mset L = mset (ip_frequency h)
        \<and> sorted_wrt (\<lambda>a b. snd b \<le> snd a) L
        \<and> (\<forall>k. filter (\<lambda>x. snd x = k) L = filter (\<lambda>x. snd x = k) (ip_frequency h)))
   \<and> length (top_processes (get_statistics t h)) \<le> 10
   \<and> length (top_destinations (get_statistics t h)) \<le> 10
   \<and> sorted_wrt (\<lambda>a b. connection_count (snd b) \<le> connection_count (snd a))
        (top_processes (get_statistics t h))
   \<and> sorted_wrt (\<lambda>a b. snd b \<le> snd a) (top_destinations (get_statistics t h))"
proof -
  let ?kp = "\<lambda>x :: nat \<times> proc_stats. connection_count (snd x)"
  let ?Lp = "sorted_desc ?kp (process_stats h)"
  let ?Ld = "sorted_desc snd (ip_frequency h)"
  have kp: "(\<lambda>(p, st). connection_count st) = ?kp" by (simp add: case_prod_unfold)
  have tp: "top_processes (get_statistics t h) = take 10 ?Lp"
    by (simp add: get_statistics_def kp)
  have td: "top_destinations (get_statistics t h) = take 10 ?Ld"
    by (simp add: get_statistics_def)
  have p: "top_processes (get_statistics t h) = take 10 ?Lp
        \<and> mset ?Lp = mset (process_stats h)
        \<and> sorted_wrt (\<lambda>a b. ?kp b \<le> ?kp a) ?Lp
        \<and> (\<forall>k. filter (\<lambda>x. ?kp x = k) ?Lp = filter (\<lambda>x. ?kp x = k) (process_stats h))"
    using tp mset_sorted_desc sorted_desc_sorted [of ?kp] sorted_desc_stable [of ?kp] by blast
  have d: "top_destinations (get_statistics t h) = take 10 ?Ld
        \<and> mset ?Ld = mset (ip_frequency h)
        \<and> sorted_wrt (\<lambda>a b. snd b \<le> snd a) ?Ld
        \<and> (\<forall>k. filter (\<lambda>x. snd x = k) ?Ld = filter (\<lambda>x. snd x = k) (ip_frequency h))"
    using td mset_sorted_desc sorted_desc_sorted [of snd] sorted_desc_stable [of snd] by blast
  have sp: "sorted_wrt (\<lambda>a b. ?kp b \<le> ?kp a) (top_processes (get_statistics t h))"
    unfolding tp using sorted_desc_sorted [of ?kp] by (rule sorted_wrt_take)
  have sd: "sorted_wrt (\<lambda>a b. snd b \<le> snd a) (top_destinations (get_statistics t h))"
    unfolding td using sorted_desc_sorted [of snd] by (rule sorted_wrt_take)
  have lp: "length (top_processes (get_statistics t h)) \<le> 10" unfolding tp by simp
  have ld: "length (top_destinations (get_statistics t h)) \<le> 10" unfolding td by simp
  from p d lp ld sp sd show ?thesis by blast
qed

lemma ex_two_pids_stats:
  "process_stats (ingest_all [(ex_env 6, ex_proc, ex_event 2 7 4444), (ex_env 8, ex_proc, ex_event 3 5 4444)]
       (new_handler 3 5 (Some new_detector) 0)) =
     [(7, \<lparr>ps_name = ''curl'', connection_count = 1, first_seen = 6, last_seen = 6,
           unique_destinations = {|3405803781|}, suspicious_count = 0\<rparr>),
      (5, \<lparr>ps_name = ''curl'', connection_count = 1, first_seen = 8, last_seen = 8,
           unique_destinations = {|3405803781|}, suspicious_count = 0\<rparr>)]"
  by (simp add: ingest_all_def pce_process_stats new_handler_def dict_get_def dict_set_def
      new_stats_def record_connection_def get_is_suspicious_def enrich_unscored raw_enrich
      ex_event_def ex_env_def)

text \<open>
  C7, as the claim states it, fails on the tie-break: pid 7 is seen at clock 6 and pid 5 at
  clock 8, one connection each. By most recent \<open>last_seen\<close>, and by ascending key,
  pid 5 would come first; the code lists pid 7 first.
\<close>

theorem top_processes_tie_keeps_insertion_order:
  "map fst (top_processes (get_statistics 9
      (ingest_all [(ex_env 6, ex_proc, ex_event 2 7 4444), (ex_env 8, ex_proc, ex_event 3 5 4444)]
         (new_handler 3 5 (Some new_detector) 0)))) = [7, 5]
   \<and> map (connection_count \<circ> snd) (top_processes (get_statistics 9
      (ingest_all [(ex_env 6, ex_proc, ex_event 2 7 4444), (ex_env 8, ex_proc, ex_event 3 5 4444)]
         (new_handler 3 5 (Some new_detector) 0)))) = [1, 1]
   \<and> map (last_seen \<circ> snd) (top_processes (get_statistics 9
      (ingest_all [(ex_env 6, ex_proc, ex_event 2 7 4444), (ex_env 8, ex_proc, ex_event 3 5 4444)]
         (new_handler 3 5 (Some new_detector) 0)))) = [6, 8]"
  by (simp add: get_statistics_def ex_two_pids_stats sorted_desc_def)

section \<open>Connection frequency\<close>

lemma count_of_dict_set: "count_of (dict_set k v d) k' = (if k' = k then v else count_of d k')"
  by (simp add: count_of_def dict_get_set)

lemma fold_counts:
  "count_of (fold (\<lambda>conn d. dict_set (h_dst_ip conn) (count_of d (h_dst_ip conn) + 1) d) xs acc) k =
     count_of acc k + length (filter (\<lambda>c. h_dst_ip c = k) xs)"
  by (induction xs arbitrary: acc) (simp_all add: count_of_dict_set)

lemma fold_counts_wf:
  "wf_dict acc \<Longrightarrow>
   wf_dict (fold (\<lambda>conn d. dict_set (h_dst_ip conn) (count_of d (h_dst_ip conn) + 1) d) xs acc)"
  by (induction xs arbitrary: acc) (simp_all add: wf_dict_set)

lemma dst_counts_count: "count_of (dst_counts xs) k = length (filter (\<lambda>c. h_dst_ip c = k) xs)"
  unfolding dst_counts_def fold_counts by (simp add: count_of_def dict_get_def)

lemma dst_counts_wf: "wf_dict (dst_counts xs)"
  unfolding dst_counts_def by (rule fold_counts_wf) (simp add: wf_dict_def)

lemma max_list_gt: "n < max_list vs \<longleftrightarrow> (\<exists>v \<in> set vs. n < v)"
proof (cases vs)
  case Nil
  then show ?thesis by simp
next
  case (Cons x xs)
  have "max_list (x # xs) = Max (set (x # xs))" using Max.set_eq_fold [of x xs] by simp
  moreover have "n < Max (set (x # xs)) \<longleftrightarrow> (\<exists>v \<in> set (x # xs). n < v)"
    by (rule Max_gr_iff) simp_all
  ultimately show ?thesis using Cons by simp
qed

text \<open>The largest value of the counting dictionary is over 20 exactly when some
  destination occurs more than 20 times.\<close>

lemma burst_iff:
  "20 < max_list (map snd (dst_counts xs)) \<longleftrightarrow> (\<exists>k. 20 < length (filter (\<lambda>c. h_dst_ip c = k) xs))"
proof
  assume "20 < max_list (map snd (dst_counts xs))"
  then obtain k v where kv: "(k, v) \<in> set (dst_counts xs)" and v: "20 < v"
    unfolding max_list_gt by auto
  from kv have "dict_get (dst_counts xs) k = Some v" using dst_counts_wf by (rule dict_get_in [rotated])
  then have "count_of (dst_counts xs) k = v" by (simp add: count_of_def)
  with v show "\<exists>k. 20 < length (filter (\<lambda>c. h_dst_ip c = k) xs)"
    by (auto simp: dst_counts_count)
next
  assume "\<exists>k. 20 < length (filter (\<lambda>c. h_dst_ip c = k) xs)"
  then obtain k where k: "20 < count_of (dst_counts xs) k" by (auto simp: dst_counts_count)
  then obtain v where g: "dict_get (dst_counts xs) k = Some v" and v: "20 < v"
    by (auto simp: count_of_def split: option.splits)
  from g have "(k, v) \<in> set (dst_counts xs)" by (rule dict_get_Some_in)
  then have "v \<in> set (map snd (dst_counts xs))" by force
  with v show "20 < max_list (map snd (dst_counts xs))" unfolding max_list_gt by blast
qed

lemma frequency_score_eq:
  "frequency_score xs =
     rate_score (length xs) + (if \<exists>k. 20 < length (filter (\<lambda>c. h_dst_ip c = k) xs) then 15 else 0)"
proof (cases "\<exists>k. 20 < length (filter (\<lambda>c. h_dst_ip c = k) xs)")
  case True
  then obtain k where k: "20 < length (filter (\<lambda>c. h_dst_ip c = k) xs)" ..
  have "length (filter (\<lambda>c. h_dst_ip c = k) xs) \<le> length xs" by simp
  with k have "3 \<le> length xs" by linarith
  with True show ?thesis by (simp add: frequency_score_def burst_iff)
next
  case False
  then show ?thesis by (simp add: frequency_score_def burst_iff)
qed

lemma rate_score_mono: "a \<le> b \<Longrightarrow> rate_score a \<le> rate_score b"
  by (simp add: rate_score_def)

lemma frequency_score_mono:
  assumes "mset xs \<subseteq># mset ys"
  shows "frequency_score xs \<le> frequency_score ys"
proof -
  have len: "length xs \<le> length ys" using size_mset_mono [OF assms] by simp
  have cnt: "length (filter P xs) \<le> length (filter P ys)" for P
  proof -
    have "size (filter_mset P (mset xs)) \<le> size (filter_mset P (mset ys))"
      using assms by (intro size_mset_mono multiset_filter_mono)
    moreover have "size (filter_mset P (mset zs)) = length (filter P zs)" for zs :: "hist_entry list"
      by (metis mset_filter size_mset)
    ultimately show ?thesis by simp
  qed
  show ?thesis
  proof (cases "\<exists>k. 20 < length (filter (\<lambda>c. h_dst_ip c = k) xs)")
    case True
    then obtain k where k: "20 < length (filter (\<lambda>c. h_dst_ip c = k) xs)" ..
    with cnt [of "\<lambda>c. h_dst_ip c = k"] have "20 < length (filter (\<lambda>c. h_dst_ip c = k) ys)"
      by linarith
    then have "\<exists>k. 20 < length (filter (\<lambda>c. h_dst_ip c = k) ys)" ..
    with True show ?thesis
      unfolding frequency_score_eq using rate_score_mono [OF len] by simp
  next
    case False
    then show ?thesis
      unfolding frequency_score_eq using rate_score_mono [OF len] by simp
  qed
qed

text \<open>
  C9. The rule-2 contribution is the threshold score of the number of connections that
  the pid's history holds for the last 60 seconds (over 10: 5, over 20: 10, over 50: 15,
  over 100: 25) plus 15 when one destination occurs more than 20 times among them, and it
  is monotone: when the connections recorded for the last 60 seconds grow (as a
  multiset), the contribution does not decrease.
\<close>

theorem connection_frequency_monotone:
  assumes "mset (recent_within 60 t (history_of det (pid (raw event))))
             \<subseteq># mset (recent_within 60 t (history_of det' (pid (raw event))))"
  shows "check_connection_frequency t det event \<le> check_connection_frequency t det' event
         \<and> check_connection_frequency t det event =
             (let recent = recent_within 60 t (history_of det (pid (raw event)));
                  n = length recent
              in (if n > 100 then 25 else if n > 50 then 15 else if n > 20 then 10
                  else if n > 10 then 5 else 0)
                 + (if \<exists>k. 20 < length (filter (\<lambda>c. h_dst_ip c = k) recent) then 15 else 0))"
proof
  show "check_connection_frequency t det event \<le> check_connection_frequency t det' event"
    unfolding check_connection_frequency_def using assms by (rule frequency_score_mono)
  show "check_connection_frequency t det event =
          (let recent = recent_within 60 t (history_of det (pid (raw event)));
               n = length recent
           in (if n > 100 then 25 else if n > 50 then 15 else if n > 20 then 10
               else if n > 10 then 5 else 0)
              + (if \<exists>k. 20 < length (filter (\<lambda>c. h_dst_ip c = k) recent) then 15 else 0))"
    by (simp only: check_connection_frequency_def frequency_score_eq rate_score_def Let_def)
qed

lemma ex_recent:
  "recent_within 60 6 (history_of (ex_detector n) (pid (raw (enrich_connection_event ex_proc (ex_event 2 4242 4444))))) =
     replicate n \<lparr>h_timestamp = 6, h_dst_ip = ''203.0.113.5'', h_dst_port = 443\<rparr>"
proof -
  have "history_of (ex_detector n) 4242 =
          replicate n \<lparr>h_timestamp = 6, h_dst_ip = ''203.0.113.5'', h_dst_port = 443\<rparr>"
    by (simp add: history_of_def ex_detector_def dict_get_def)
  moreover have "pid (raw (enrich_connection_event ex_proc (ex_event 2 4242 4444))) = 4242"
    by (simp add: raw_enrich ex_event_def)
  ultimately show ?thesis by (simp add: recent_within_def round_double_zero)
qed

lemma ex_burst:
  "(\<exists>k. 20 < length (filter (\<lambda>c. h_dst_ip c = k) (replicate n e))) \<longleftrightarrow> 20 < n"
proof -
  have "length (filter (\<lambda>c. h_dst_ip c = k) (replicate n e)) = (if h_dst_ip e = k then n else 0)" for k
    by (induction n) auto
  then show ?thesis by auto
qed

lemma ex_frequency_n:
  "check_connection_frequency 6 (ex_detector n) (enrich_connection_event ex_proc (ex_event 2 4242 4444)) =
     rate_score n + (if 20 < n then 15 else 0)"
  unfolding check_connection_frequency_def ex_recent frequency_score_eq ex_burst by simp

lemma ex_frequency:
  "check_connection_frequency 6 (ex_detector 10) (enrich_connection_event ex_proc (ex_event 2 4242 4444)) = 0"
  "check_connection_frequency 6 (ex_detector 21) (enrich_connection_event ex_proc (ex_event 2 4242 4444)) = 25"
  unfolding ex_frequency_n by (simp_all add: rate_score_def)

theorem connection_frequency_monotone_witness:
  "mset (recent_within 60 6 (history_of (ex_detector 10)
           (pid (raw (enrich_connection_event ex_proc (ex_event 2 4242 4444))))))
     \<subseteq># mset (recent_within 60 6 (history_of (ex_detector 21)
           (pid (raw (enrich_connection_event ex_proc (ex_event 2 4242 4444))))))
   \<and> check_connection_frequency 6 (ex_detector 10) (enrich_connection_event ex_proc (ex_event 2 4242 4444)) = 0
   \<and> check_connection_frequency 6 (ex_detector 21) (enrich_connection_event ex_proc (ex_event 2 4242 4444)) = 25
   \<and> check_connection_frequency 6 (ex_detector 10) (enrich_connection_event ex_proc (ex_event 2 4242 4444))
       \<le> check_connection_frequency 6 (ex_detector 21) (enrich_connection_event ex_proc (ex_event 2 4242 4444))"
proof -
  have s: "mset (recent_within 60 6 (history_of (ex_detector 10)
           (pid (raw (enrich_connection_event ex_proc (ex_event 2 4242 4444))))))
     \<subseteq># mset (recent_within 60 6 (history_of (ex_detector 21)
           (pid (raw (enrich_connection_event ex_proc (ex_event 2 4242 4444))))))"
    unfolding ex_recent mset_replicate by (rule mset_subset_eqI) simp
  show ?thesis
    using s connection_frequency_monotone [OF s] ex_frequency by blast
qed

text \<open>Inside \<^verbatim>\<open>analyze_connection\<close> the history of a pid is a deque of at most 100
  entries, so the count of rule 2 never exceeds 100 there.\<close>

lemma tracked_history_bounded:
  "length (history_of (track ev det event) (pid (raw event))) \<le> 100"
  by (simp add: track_def Let_def history_of_def dict_get_set deque_append_def)

section \<open>Rate limiting of outbound frames\<close>

lemma dict_get_del: "dict_get (dict_del c d) k = (if k = c then None else dict_get d k)"
  by (simp add: dict_get_def dict_del_def delete_conv')

lemma crl_fst:
  "fst (check_rate_limit t c ws) \<longleftrightarrow>
     length (filter (\<lambda>ts. round_double (t - ts) < 1) (window_of ws c)) < rate_limit ws"
  by (simp add: check_rate_limit_def Let_def)

lemma crl_window:
  "window_of (snd (check_rate_limit t c ws)) c =
     (if length (filter (\<lambda>ts. round_double (t - ts) < 1) (window_of ws c)) < rate_limit ws
      then filter (\<lambda>ts. round_double (t - ts) < 1) (window_of ws c) @ [t]
      else filter (\<lambda>ts. round_double (t - ts) < 1) (window_of ws c))"
  by (simp add: check_rate_limit_def Let_def window_of_def dict_get_set)

lemma sm_rate_limit: "rate_limit (send_message t c sock m ws) = rate_limit ws"
  by (simp add: send_message_def check_rate_limit_def Let_def cleanup_client_def
      split: socket.splits)

lemma sm_kill_requests: "kill_requests (send_message t c sock m ws) = kill_requests ws"
  by (simp add: send_message_def check_rate_limit_def Let_def cleanup_client_def
      split: socket.splits)

lemma sm_window_other:
  "c \<noteq> cid \<Longrightarrow> window_of (send_message t c sock m ws) cid = window_of ws cid"
  by (simp add: send_message_def check_rate_limit_def Let_def cleanup_client_def window_of_def
      dict_get_set dict_get_del split: socket.splits)

lemma sm_delivered_other:
  "c \<noteq> cid \<Longrightarrow> delivered_times cid (send_message t c sock m ws) = delivered_times cid ws"
  by (simp add: send_message_def check_rate_limit_def Let_def cleanup_client_def
      delivered_times_def split: socket.splits)

lemma sm_delivered_broken:
  "delivered_times cid (send_message t c Broken m ws) = delivered_times cid ws"
  by (simp add: send_message_def check_rate_limit_def Let_def cleanup_client_def
      delivered_times_def)

lemma sm_open_window:
  "window_of (send_message t cid Open m ws) cid =
     (if length (filter (\<lambda>ts. round_double (t - ts) < 1) (window_of ws cid)) < rate_limit ws
      then filter (\<lambda>ts. round_double (t - ts) < 1) (window_of ws cid) @ [t]
      else filter (\<lambda>ts. round_double (t - ts) < 1) (window_of ws cid))"
  by (simp add: send_message_def check_rate_limit_def Let_def window_of_def dict_get_set)

lemma sm_open_delivered:
  "delivered_times cid (send_message t cid Open m ws) =
     (if length (filter (\<lambda>ts. round_double (t - ts) < 1) (window_of ws cid)) < rate_limit ws
      then delivered_times cid ws @ [t]
      else delivered_times cid ws)"
  by (simp add: send_message_def check_rate_limit_def Let_def delivered_times_def)

text \<open>A send that the limiter refuses changes nothing but the stored timestamps, which
  it prunes.\<close>

lemma sm_dropped:
  assumes "\<not> fst (check_rate_limit t c ws)"
  shows "send_message t c sock m ws =
           ws\<lparr>client_message_counts :=
                dict_set c (filter (\<lambda>ts. round_double (t - ts) < 1) (window_of ws c))
                  (client_message_counts ws)\<rparr>"
  using assms by (simp add: send_message_def check_rate_limit_def Let_def split: if_splits)

lemma crl_window_app:
  "window_of (snd (check_rate_limit t c ws)) c =
     filter (\<lambda>ts. round_double (t - ts) < 1) (window_of ws c)
     @ (if fst (check_rate_limit t c ws) then [t] else [])"
  by (simp add: crl_window crl_fst)

lemma sm_delivered_subset:
  "set (delivered_times cid (send_message t c sock m ws)) \<subseteq> insert t (set (delivered_times cid ws))"
  by (auto simp: send_message_def check_rate_limit_def Let_def cleanup_client_def
      delivered_times_def split: socket.splits if_splits)

lemma length_filter_imp:
  "(\<And>x. P x \<Longrightarrow> Q x) \<Longrightarrow> length (filter P xs) \<le> length (filter Q xs)"
  by (induction xs) auto

lemma filter_filter_later:
  fixes tl t :: rat
  assumes "tl \<le> t"
  shows "filter (\<lambda>ts. t - ts < 1) (filter (\<lambda>ts. tl - ts < 1) ds) = filter (\<lambda>ts. t - ts < 1) ds"
proof -
  have "(tl - ts < 1 \<and> t - ts < 1) = (t - ts < 1)" for ts using assms by auto
  then show ?thesis by simp
qed

text \<open>One send keeps the invariant: to another client it changes nothing for this one, to
  this client over an open socket it prunes the stored timestamps and, if fewer than the
  limit remain, delivers the frame and stores its timestamp. The ages are computed
  exactly among the clock readings \<open>T\<close>.\<close>

lemma window_inv_step:
  assumes inv: "window_inv cid ws t0" and le: "t0 \<le> t" and sock: "c = cid \<longrightarrow> sock = Open"
    and sub: "set (delivered_times cid ws) \<subseteq> T" and tT: "t \<in> T"
    and ex: "\<forall>a \<in> T. \<forall>b \<in> T. round_double (a - b) = a - b"
  shows "window_inv cid (send_message t c sock m ws) t"
proof (cases "c = cid")
  case False
  from inv obtain tl where "tl \<le> t0"
    and "window_of ws cid = filter (\<lambda>ts. tl - ts < 1) (delivered_times cid ws)"
    unfolding window_inv_def by blast
  with le have "tl \<le> t \<and> window_of ws cid = filter (\<lambda>ts. tl - ts < 1) (delivered_times cid ws)"
    by simp
  with inv False show ?thesis
    unfolding window_inv_def by (auto simp: sm_window_other sm_delivered_other sm_rate_limit)
next
  case True
  with sock have o: "sock = Open" by simp
  let ?D = "delivered_times cid ws"
  from inv obtain tl where tl: "tl \<le> t0" and w: "window_of ws cid = filter (\<lambda>ts. tl - ts < 1) ?D"
    unfolding window_inv_def by blast
  from inv have bound: "length (in_window s ?D) \<le> rate_limit ws" for s
    unfolding window_inv_def by blast
  have "set (window_of ws cid) \<subseteq> T" unfolding w using sub by auto
  then have "\<forall>ts \<in> set (window_of ws cid). round_double (t - ts) = t - ts" using ex tT by blast
  then have "filter (\<lambda>ts. round_double (t - ts) < 1) (window_of ws cid) =
               filter (\<lambda>ts. t - ts < 1) (window_of ws cid)"
    by (intro filter_cong) simp_all
  also have "\<dots> = filter (\<lambda>ts. t - ts < 1) ?D"
    unfolding w using tl le by (intro filter_filter_later) simp
  finally have kept: "filter (\<lambda>ts. round_double (t - ts) < 1) (window_of ws cid) =
                        filter (\<lambda>ts. t - ts < 1) ?D" .
  show ?thesis
  proof (cases "length (filter (\<lambda>ts. t - ts < 1) ?D) < rate_limit ws")
    case False
    then have "window_of (send_message t cid Open m ws) cid = filter (\<lambda>ts. t - ts < 1) ?D"
      and "delivered_times cid (send_message t cid Open m ws) = ?D"
      by (simp_all add: sm_open_window sm_open_delivered kept)
    then show ?thesis
      unfolding window_inv_def True o using bound by (auto simp: sm_rate_limit)
  next
    case adm: True
    then have w': "window_of (send_message t cid Open m ws) cid = filter (\<lambda>ts. t - ts < 1) (?D @ [t])"
      and d': "delivered_times cid (send_message t cid Open m ws) = ?D @ [t]"
      by (simp_all add: sm_open_window sm_open_delivered kept)
    have "length (in_window s (?D @ [t])) \<le> rate_limit ws" for s
    proof (cases "s \<le> t \<and> t < s + 1")
      case False
      then have "in_window s (?D @ [t]) = in_window s ?D" by (auto simp: in_window_def)
      then show ?thesis using bound by simp
    next
      case True
      then have "length (in_window s ?D) \<le> length (filter (\<lambda>ts. t - ts < 1) ?D)"
        unfolding in_window_def by (intro length_filter_imp) auto
      moreover have "length (in_window s (?D @ [t])) = Suc (length (in_window s ?D))"
        using True by (simp add: in_window_def)
      ultimately show ?thesis using adm by simp
    qed
    then show ?thesis
      unfolding window_inv_def True o w' d' by (auto simp: sm_rate_limit)
  qed
qed

lemma send_all_Cons:
  "send_all ((t, c, sock, m) # reqs) ws = send_all reqs (send_message t c sock m ws)"
  by (simp add: send_all_def)

lemma send_all_rate_limit: "rate_limit (send_all reqs ws) = rate_limit ws"
  by (induction reqs arbitrary: ws) (auto simp: send_all_def sm_rate_limit)

lemma send_all_broken:
  assumes "list_all (\<lambda>(t', c', sock', m'). c' \<noteq> cid \<or> sock' = Broken) reqs"
  shows "delivered_times cid (send_all reqs ws) = delivered_times cid ws"
  using assms
proof (induction reqs arbitrary: ws)
  case Nil
  then show ?case by (simp add: send_all_def)
next
  case (Cons r reqs)
  obtain t c sock m where r: "r = (t, c, sock, m)" by (cases r) auto
  from Cons.prems r have "c \<noteq> cid \<or> sock = Broken" by simp
  then have "delivered_times cid (send_message t c sock m ws) = delivered_times cid ws"
    by (auto simp: sm_delivered_other sm_delivered_broken)
  moreover from Cons.prems have "list_all (\<lambda>(t', c', sock', m'). c' \<noteq> cid \<or> sock' = Broken) reqs"
    by simp
  ultimately show ?case using Cons.IH [of "send_message t c sock m ws"] by (simp add: r send_all_Cons)
qed

lemma send_all_bound:
  assumes "window_inv cid ws t0" and "sorted (map fst reqs)" and "\<forall>t \<in> set (map fst reqs). t0 \<le> t"
    and "stays_broken cid reqs"
    and "set (delivered_times cid ws) \<subseteq> T" and "set (map fst reqs) \<subseteq> T"
    and ex: "\<forall>a \<in> T. \<forall>b \<in> T. round_double (a - b) = a - b"
  shows "length (in_window s (delivered_times cid (send_all reqs ws))) \<le> rate_limit ws"
  using assms(1-6)
proof (induction reqs arbitrary: ws t0)
  case Nil
  then show ?case by (simp add: send_all_def window_inv_def)
next
  case (Cons r reqs)
  obtain t c sock m where r: "r = (t, c, sock, m)" by (cases r) auto
  show ?case
  proof (cases "c = cid \<and> sock = Broken")
    case True
    with Cons.prems(4) r
    have "list_all (\<lambda>(t', c', sock', m'). c' \<noteq> cid \<or> sock' = Broken) reqs" by simp
    then have "delivered_times cid (send_all reqs (send_message t c sock m ws)) =
                 delivered_times cid (send_message t c sock m ws)"
      by (rule send_all_broken)
    also have "\<dots> = delivered_times cid ws" using True by (simp add: sm_delivered_broken)
    finally show ?thesis using Cons.prems(1) by (simp add: r send_all_Cons window_inv_def)
  next
    case False
    then have o: "c = cid \<longrightarrow> sock = Open" by (cases sock) auto
    from Cons.prems(3) r have le: "t0 \<le> t" by simp
    from Cons.prems(6) r have tT: "t \<in> T" by simp
    have inv': "window_inv cid (send_message t c sock m ws) t"
      using Cons.prems(1) le o Cons.prems(5) tT ex by (rule window_inv_step)
    from Cons.prems(2) r have s': "sorted (map fst reqs)" and l': "\<forall>t' \<in> set (map fst reqs). t \<le> t'"
      by auto
    from Cons.prems(4) r have b': "stays_broken cid reqs" by simp
    have d': "set (delivered_times cid (send_message t c sock m ws)) \<subseteq> T"
      using sm_delivered_subset [of cid t c sock m ws] Cons.prems(5) tT by auto
    from Cons.prems(6) have T': "set (map fst reqs) \<subseteq> T" by simp
    from Cons.IH [OF inv' s' l' b' d' T'] show ?thesis by (simp add: r send_all_Cons sm_rate_limit)
  qed
qed

text \<open>
  C6. On a run of sends with a non-decreasing clock whose readings have exact differences,
  a client that starts without stored timestamps and without delivered frames receives
  at most 100 frames in any half-open second \<open>[s, s + 1)\<close>, as long as a socket that has
  failed once keeps failing. The admission check admits a send exactly when fewer
  timestamps than the limit remain after it has pruned those whose age, as the source
  computes it, is not below one second; the client's window after the check is the pruned
  one, with the new timestamp appended on admission. A send that the check refuses is
  dropped: the broker's state after it is the state before with the pruned window, so no
  frame goes out, nothing is queued and the client, its metadata and its socket stay as
  they are.
\<close>

theorem rate_limit_sliding_window:
  assumes "sorted (map fst reqs)" and "exact_differences (map fst reqs)"
    and "stays_broken cid reqs"
    and "window_of ws cid = []" and "delivered_times cid ws = []" and "rate_limit ws = 100"
  shows "(\<forall>s. length (in_window s (delivered_times cid (send_all reqs ws))) \<le> 100)
         \<and> (fst (check_rate_limit t cid ws') \<longleftrightarrow>
              length (filter (\<lambda>ts. round_double (t - ts) < 1) (window_of ws' cid)) < rate_limit ws')
         \<and> window_of (snd (check_rate_limit t cid ws')) cid =
              filter (\<lambda>ts. round_double (t - ts) < 1) (window_of ws' cid)
              @ (if fst (check_rate_limit t cid ws') then [t] else [])
         \<and> (\<not> fst (check_rate_limit t cid ws') \<longrightarrow>
              send_message t cid sock m ws' =
                ws'\<lparr>client_message_counts :=
                      dict_set cid (filter (\<lambda>ts. round_double (t - ts) < 1) (window_of ws' cid))
                        (client_message_counts ws')\<rparr>)"
proof -
  have ex: "\<forall>a \<in> set (map fst reqs). \<forall>b \<in> set (map fst reqs). round_double (a - b) = a - b"
    using assms(2) unfolding exact_differences_def list_all_iff by blast
  have "length (in_window s (delivered_times cid (send_all reqs ws))) \<le> 100" for s
  proof (cases reqs)
    case Nil
    then show ?thesis using assms(5) by (simp add: send_all_def in_window_def)
  next
    case (Cons r rs)
    let ?t0 = "fst r"
    have inv: "window_inv cid ws ?t0"
      unfolding window_inv_def using assms(4,5) by (auto simp: in_window_def)
    have le: "\<forall>t \<in> set (map fst reqs). ?t0 \<le> t" using assms(1) Cons by auto
    have d: "set (delivered_times cid ws) \<subseteq> set (map fst reqs)" using assms(5) by simp
    from send_all_bound [OF inv assms(1) le assms(3) d subset_refl ex] show ?thesis
      using assms(6) by simp
  qed
  then show ?thesis using sm_dropped crl_window_app crl_fst by blast
qed

lemma ex_ws_fields:
  "window_of ex_ws ''c1'' = []" "delivered_times ''c1'' ex_ws = []" "rate_limit ex_ws = 100"
  "outbox ex_ws = []" "kill_requests ex_ws = []" "clients ex_ws = [(''c1'', Open)]"
  by (simp_all add: ex_ws_def register_client_def new_ws_handler_def window_of_def dict_get_def
      dict_set_def delivered_times_def)

lemma send_all_snoc:
  "send_all (reqs @ [(t, c, sock, m)]) ws = send_message t c sock m (send_all reqs ws)"
  by (simp add: send_all_def)

lemma ex_burst_Suc: "ex_burst_reqs (Suc n) = ex_burst_reqs n @ [(2, ''c1'', Open, ex_frame)]"
  by (simp add: ex_burst_reqs_def replicate_append_same)

lemma sm_open_clients: "clients (send_message t c Open m ws) = clients ws"
  by (simp add: send_message_def check_rate_limit_def Let_def)

text \<open>A burst of \<open>n\<close> frames at one clock reading: the first 100 are delivered, the others
  are dropped, and the client stays registered.\<close>

lemma ex_burst_state:
  "window_of (send_all (ex_burst_reqs n) ex_ws) ''c1'' = replicate (min n 100) 2
   \<and> delivered_times ''c1'' (send_all (ex_burst_reqs n) ex_ws) = replicate (min n 100) 2
   \<and> clients (send_all (ex_burst_reqs n) ex_ws) = [(''c1'', Open)]"
proof (induction n)
  case 0
  then show ?case by (simp add: ex_burst_reqs_def send_all_def ex_ws_fields)
next
  case (Suc n)
  let ?w = "send_all (ex_burst_reqs n) ex_ws"
  have r: "rate_limit ?w = 100" by (simp add: send_all_rate_limit ex_ws_fields)
  have f: "filter (\<lambda>ts. round_double (2 - ts) < 1) (replicate k (2::rat)) = replicate k 2" for k
    by (simp add: filter_id_conv round_double_zero)
  from Suc have c: "clients ?w = [(''c1'', Open)]" by simp
  show ?case
  proof (cases "n < 100")
    case True
    from Suc True have w: "window_of ?w ''c1'' = replicate n 2"
      and d: "delivered_times ''c1'' ?w = replicate n 2" by simp_all
    have g: "window_of (send_message 2 ''c1'' Open ex_frame ?w) ''c1'' = replicate (Suc n) 2
       \<and> delivered_times ''c1'' (send_message 2 ''c1'' Open ex_frame ?w) = replicate (Suc n) 2
       \<and> clients (send_message 2 ''c1'' Open ex_frame ?w) = [(''c1'', Open)]"
      unfolding sm_open_window sm_open_delivered sm_open_clients w d f r c
      using True by (simp add: replicate_append_same)
    from True have "min (Suc n) 100 = Suc n" by simp
    with g show ?thesis unfolding ex_burst_Suc send_all_snoc by simp
  next
    case False
    from Suc False have w: "window_of ?w ''c1'' = replicate 100 2"
      and d: "delivered_times ''c1'' ?w = replicate 100 2" by simp_all
    have g: "window_of (send_message 2 ''c1'' Open ex_frame ?w) ''c1'' = replicate 100 2
       \<and> delivered_times ''c1'' (send_message 2 ''c1'' Open ex_frame ?w) = replicate 100 2
       \<and> clients (send_message 2 ''c1'' Open ex_frame ?w) = [(''c1'', Open)]"
      unfolding sm_open_window sm_open_delivered sm_open_clients w d f r c by simp
    from False have "min (Suc n) 100 = 100" by simp
    with g show ?thesis unfolding ex_burst_Suc send_all_snoc by (simp only:)
  qed
qed

lemma ex_burst_refused: "100 \<le> n \<Longrightarrow> \<not> fst (check_rate_limit 2 ''c1'' (send_all (ex_burst_reqs n) ex_ws))"
proof -
  assume "100 \<le> n"
  then have "window_of (send_all (ex_burst_reqs n) ex_ws) ''c1'' = replicate 100 2"
    using ex_burst_state [of n] by simp
  moreover have "filter (\<lambda>ts. round_double (2 - ts) < 1) (replicate 100 (2::rat)) = replicate 100 2"
    by (simp add: filter_id_conv round_double_zero)
  ultimately show ?thesis by (simp add: crl_fst send_all_rate_limit ex_ws_fields)
qed

lemma ex_burst_hyps:
  "sorted (map fst (ex_burst_reqs n))" "exact_differences (map fst (ex_burst_reqs n))"
  "stays_broken ''c1'' (ex_burst_reqs n)"
proof -
  show "sorted (map fst (ex_burst_reqs n))" by (simp add: ex_burst_reqs_def)
  show "exact_differences (map fst (ex_burst_reqs n))"
    by (simp add: ex_burst_reqs_def exact_differences_def list_all_iff round_double_zero)
  show "stays_broken ''c1'' (ex_burst_reqs n)"
    unfolding ex_burst_reqs_def by (induction n) simp_all
qed

text \<open>Three sends at clocks 2, 2.5 and 3: all are delivered, and the check at clock 3
  prunes the timestamp that is one second old.\<close>

lemma ex_three_hyps:
  "sorted (map fst ex_three_reqs)" "exact_differences (map fst ex_three_reqs)"
  "stays_broken ''c1'' ex_three_reqs"
  by (simp_all add: ex_three_reqs_def exact_differences_def round_double_zero round_double_minus
      round_double_one round_double_half)

lemma ex_three_state:
  "delivered_times ''c1'' (send_all ex_three_reqs ex_ws) = [2, 5 / 2, 3]
   \<and> window_of (send_all ex_three_reqs ex_ws) ''c1'' = [5 / 2, 3]"
proof -
  let ?w1 = "send_message 2 ''c1'' Open ex_frame ex_ws"
  let ?w2 = "send_message (5 / 2) ''c1'' Open ex_frame ?w1"
  let ?w3 = "send_message 3 ''c1'' Open ex_frame ?w2"
  have r: "rate_limit ?w1 = 100" "rate_limit ?w2 = 100" by (simp_all add: sm_rate_limit ex_ws_fields)
  have w1: "window_of ?w1 ''c1'' = [2]" and d1: "delivered_times ''c1'' ?w1 = [2]"
    by (simp_all add: sm_open_window sm_open_delivered ex_ws_fields)
  have w2: "window_of ?w2 ''c1'' = [2, 5 / 2]"
    by (subst sm_open_window) (simp add: w1 r round_double_half)
  have d2: "delivered_times ''c1'' ?w2 = [2, 5 / 2]"
    by (subst sm_open_delivered) (simp add: w1 d1 r round_double_half)
  have w3: "window_of ?w3 ''c1'' = [5 / 2, 3]"
    by (subst sm_open_window) (simp add: w2 r round_double_half round_double_one)
  have d3: "delivered_times ''c1'' ?w3 = [2, 5 / 2, 3]"
    by (subst sm_open_delivered) (simp add: w2 d2 r round_double_half round_double_one)
  from w3 d3 show ?thesis by (simp add: send_all_def ex_three_reqs_def)
qed

theorem rate_limit_sliding_window_witness:
  "sorted (map fst (ex_burst_reqs 150)) \<and> exact_differences (map fst (ex_burst_reqs 150))
   \<and> stays_broken ''c1'' (ex_burst_reqs 150)
   \<and> sorted (map fst ex_three_reqs) \<and> exact_differences (map fst ex_three_reqs)
   \<and> stays_broken ''c1'' ex_three_reqs
   \<and> window_of ex_ws ''c1'' = [] \<and> delivered_times ''c1'' ex_ws = [] \<and> rate_limit ex_ws = 100
   \<and> delivered_times ''c1'' (send_all (ex_burst_reqs 150) ex_ws) = replicate 100 2
   \<and> clients (send_all (ex_burst_reqs 150) ex_ws) = [(''c1'', Open)]
   \<and> (\<forall>s. length (in_window s (delivered_times ''c1'' (send_all (ex_burst_reqs 150) ex_ws))) \<le> 100)
   \<and> delivered_times ''c1'' (send_all ex_three_reqs ex_ws) = [2, 5 / 2, 3]
   \<and> window_of (send_all ex_three_reqs ex_ws) ''c1'' = [5 / 2, 3]
   \<and> (\<forall>s. length (in_window s (delivered_times ''c1'' (send_all ex_three_reqs ex_ws))) \<le> 100)
   \<and> \<not> fst (check_rate_limit 2 ''c1'' (send_all (ex_burst_reqs 150) ex_ws))
   \<and> send_message 2 ''c1'' Open ex_frame (send_all (ex_burst_reqs 150) ex_ws) =
       (send_all (ex_burst_reqs 150) ex_ws)
         \<lparr>client_message_counts :=
            dict_set ''c1''
              (filter (\<lambda>ts. round_double (2 - ts) < 1)
                 (window_of (send_all (ex_burst_reqs 150) ex_ws) ''c1''))
              (client_message_counts (send_all (ex_burst_reqs 150) ex_ws))\<rparr>"
proof -
  have d: "delivered_times ''c1'' (send_all (ex_burst_reqs 150) ex_ws) = replicate 100 2"
    and c: "clients (send_all (ex_burst_reqs 150) ex_ws) = [(''c1'', Open)]"
    using ex_burst_state [of 150] by simp_all
  have n: "\<not> fst (check_rate_limit 2 ''c1'' (send_all (ex_burst_reqs 150) ex_ws))"
    by (rule ex_burst_refused) simp
  show ?thesis
    using ex_burst_hyps [of 150] ex_three_hyps ex_three_state ex_ws_fields(1,2,3) d c n
      rate_limit_sliding_window [OF ex_burst_hyps [of 150] ex_ws_fields(1,2,3),
        of 2 "send_all (ex_burst_reqs 150) ex_ws" Open ex_frame]
      rate_limit_sliding_window [OF ex_three_hyps ex_ws_fields(1,2,3),
        of 2 "send_all (ex_burst_reqs 150) ex_ws" Open ex_frame]
    by blast
qed

section \<open>Requests to kill a process\<close>



text \<open>With any other integer as pid the termination code is entered, and a \<^verbatim>\<open>data\<close>
  member that is not an object makes the handler raise before the guard.\<close>

lemma kill_process_with_pid:
  assumes "request_data data = Some inner" and "map_of inner ''pid'' = Some (JInt n)" and "n \<noteq> 0"
  shows "\<exists>ws'. handle_kill_process t outcome cid sock data ws = Inr ws'
               \<and> kill_requests ws' = kill_requests ws @ [JInt n]"
proof -
  from assms(1) have d: "(case map_of data ''data'' of None \<Rightarrow> JObj [] | Some v \<Rightarrow> v) = JObj inner"
    by (auto simp: request_data_def split: option.splits json.splits)
  show ?thesis
    unfolding handle_kill_process_def d using assms(2,3)
    by (cases outcome) (simp_all add: Let_def send_error_def sm_kill_requests)
qed

lemma kill_process_data_not_object:
  assumes "request_data data = None"
  shows "handle_kill_process t outcome cid sock data ws = Inl AttributeError"
  using assms
  by (auto simp: request_data_def handle_kill_process_def split: option.splits json.splits)


end
